theory Spec2Isabelle
  imports Complex_Main
begin

section \<open>Data model\<close>

text \<open>
  The embedding follows \<^verbatim>\<open>face_recognition_app/services.py\<close> (function
  \<^verbatim>\<open>recognize_faces_in_stream\<close>) and \<^verbatim>\<open>attendance/models.py\<close>.
  Primary keys are Python integers. A point in time is an integer number of microseconds
  (the resolution of Python's \<^verbatim>\<open>datetime\<close>) after 0001-01-01 00:00:00 on the clock
  of the project's time zone, taken to have a fixed offset, so that \<^verbatim>\<open>make_aware\<close>
  neither fails nor shifts an instant; \<^verbatim>\<open>timezone.now()\<close> is read on the same clock
  (time-zone support is on, so that both are aware and line 120 can compare them).
  A face encoding is a numeric vector; its components are idealised as reals.
\<close>

type_synonym session_id = int
type_synonym student_id = int
type_synonym ficha_id = int
type_synonym timestamp = int
type_synonym encoding = "real list"

text \<open>\<^verbatim>\<open>Attendance.STATUS_CHOICES\<close>.\<close>

datatype status = Present | Absent | Late | Excused

text \<open>
  Model \<^verbatim>\<open>Attendance\<close>. The pair (session, student) is \<^verbatim>\<open>unique_together\<close>:
  the table is a map from that pair to the other fields of the row.
\<close>

record attendance =
  status :: status
  check_in_time :: "timestamp option"
  verified_by_face :: bool

text \<open>
  Model \<^verbatim>\<open>AttendanceSession\<close>, with the fields the service reads: the nullable
  foreign key \<^verbatim>\<open>ficha\<close>, \<^verbatim>\<open>date\<close> (days after 0001-01-01, at most 3652058 for
  a \<^verbatim>\<open>date\<close>), \<^verbatim>\<open>start_time\<close> (microseconds after midnight, less than a day for a
  \<^verbatim>\<open>time\<close>) and \<^verbatim>\<open>permisividad\<close> (minutes).
\<close>

record attendance_session =
  ficha :: "ficha_id option"
  date :: int
  start_time :: int
  permisividad :: int

text \<open>
  Model \<^verbatim>\<open>FaceEncoding\<close>: \<^verbatim>\<open>encoding_array\<close> is what \<^verbatim>\<open>get_encoding_array()\<close>
  returns (\<^verbatim>\<open>None\<close> or an array); the method itself is not part of the sources at hand,
  so its result is taken as data.
\<close>

record face_encoding =
  is_active :: bool
  encoding_array :: "encoding option"

text \<open>
  A user of a ficha: \<^verbatim>\<open>face_encoding_data\<close> is \<open>None\<close> when the one-to-one relation
  is missing (\<^verbatim>\<open>hasattr\<close> is false).
\<close>

record user =
  user_id :: student_id
  face_encoding_data :: "face_encoding option"

text \<open>
  A \<^verbatim>\<open>Ficha\<close> object as the service holds it: its primary key and
  \<^verbatim>\<open>students.all()\<close>. The table of fichas maps the key to the students.
\<close>

record ficha_rec =
  ficha_pk :: ficha_id
  students :: "user list"

text \<open>One element of \<^verbatim>\<open>recognized_students\<close>.\<close>

record entry =
  entry_id :: student_id
  entry_full_name :: string
  entry_status :: status

text \<open>The calls of \<^verbatim>\<open>logger\<close>, one constructor per message; numbers formatted into the
  text (distances, the threshold) are left out.\<close>

datatype log_event =
    InfoStart session_id
  | InfoThreshold
  | InfoCacheHit ficha_id
  | InfoLoadingFromDB ficha_id nat
  | WarningWrongLength student_id nat
  | WarningNoActiveEncodings ficha_id
  | InfoCached nat
  | InfoDetected nat
  | InfoProcessingFace nat nat
  | InfoUniqueMatch student_id
  | WarningAmbiguous nat "student_id list"
  | WarningNoMatch nat
  | InfoRecordFound student_id status
  | InfoUpdated student_id status
  | InfoAlreadyRecorded student_id status
  | ErrorRecordMissing student_id
  | ErrorNoFicha session_id
  | ExceptionUnexpected session_id

text \<open>The four \<^verbatim>\<open>{"error": ...}\<close> results and the successful one.\<close>

datatype error = NoActiveEncodings | NoFaceDetected | FichaDoesNotExist | Unexpected

type_synonym result = "error + entry list"

text \<open>
  The state the service reads and writes: the rows of \<^verbatim>\<open>Attendance\<close>, the rows of
  \<^verbatim>\<open>AttendanceSession\<close> and \<^verbatim>\<open>Ficha\<close> and the users' full names
  (\<^verbatim>\<open>get_full_name()\<close>), all read only, the Django cache (an entry that
  has expired is one that \<^verbatim>\<open>cache.get\<close> does not return any more, hence absent from
  the map), and the log. Two counters are instrumentation: \<open>store_loads\<close> counts the
  loads of a ficha's encodings from the database (lines 53 to 65) and \<open>detect_calls\<close> the
  runs of face detection on the received image (lines 75 to 77).
\<close>

record state =
  attendances :: "session_id \<times> student_id \<rightharpoonup> attendance"
  sessions :: "session_id \<rightharpoonup> attendance_session"
  fichas :: "ficha_id \<rightharpoonup> user list"
  full_names :: "student_id \<Rightarrow> string"
  cache :: "ficha_id \<rightharpoonup> encoding list \<times> student_id list"
  log :: "log_event list"
  store_loads :: nat
  detect_calls :: nat

section \<open>The grace period and the update of one attendance record\<close>

text \<open>
  The last instant of \<^verbatim>\<open>datetime\<close>, 9999-12-31 23:59:59.999999, in microseconds after
  0001-01-01 00:00:00, the first one.
\<close>

definition datetime_max :: timestamp where
  "datetime_max = 315537897599999999"

text \<open>\<^verbatim>\<open>make_aware(datetime.combine(session.date, session.start_time))\<close>, line 117.\<close>

definition session_start_datetime :: "attendance_session \<Rightarrow> timestamp" where
  "session_start_datetime s = date s * 86400000000 + start_time s"

text \<open>
  \<^verbatim>\<open>timedelta(minutes=m)\<close>, in microseconds: \<^verbatim>\<open>OverflowError\<close> (here \<open>None\<close>) when
  the number of days is not within 999999999 either way.
\<close>

definition timedelta_minutes :: "int \<Rightarrow> int option" where
  "timedelta_minutes m =
     (if - 1439999998560 \<le> m \<and> m < 1440000000000 then Some (m * 60000000) else None)"

text \<open>
  Line 118: the start plus \<^verbatim>\<open>timedelta(minutes=session.permisividad)\<close>. The sum raises
  \<^verbatim>\<open>OverflowError\<close> (here \<open>None\<close>) when it is not an instant of \<^verbatim>\<open>datetime\<close>.
\<close>

definition grace_period_end :: "attendance_session \<Rightarrow> timestamp option" where
  "grace_period_end s =
     (case timedelta_minutes (permisividad s) of
        None \<Rightarrow> None
      | Some delta \<Rightarrow>
          (let t = session_start_datetime s + delta
           in if 0 \<le> t \<and> t \<le> datetime_max then Some t else None))"

definition logger :: "log_event \<Rightarrow> state \<Rightarrow> state" where
  "logger e st = st\<lparr>log := log st @ [e]\<rparr>"

text \<open>Lines 145 to 147: an exception that is not caught earlier.\<close>

definition raise_unexpected :: "session_id \<Rightarrow> state \<Rightarrow> (error + 'a) \<times> state" where
  "raise_unexpected session_id st = (Inl Unexpected, logger (ExceptionUnexpected session_id) st)"

text \<open>
  The three ways through lines 108 to 138, the body of \<^verbatim>\<open>if matched_student_id:\<close>,
  that return to the loop: the record is absent and is updated (an entry is appended to
  \<^verbatim>\<open>recognized_students\<close>), the record has another status, or
  \<^verbatim>\<open>Attendance.DoesNotExist\<close> is raised and caught.
\<close>

datatype outcome = Transitioned entry | NoOp | RecordMissing

text \<open>
  Lines 108 to 138 for one matched student. The row is found by
  \<^verbatim>\<open>Attendance.objects.get(session_id=..., student_id=...)\<close>; \<open>sess\<close> is
  \<^verbatim>\<open>attendance_record.session\<close>, the row of that session; \<open>now\<close> is the value of
  \<^verbatim>\<open>timezone.now()\<close> read at line 114. An \<^verbatim>\<open>OverflowError\<close> of line 118 is not
  caught by line 136: it leaves the loop and the function through line 145, before anything
  is assigned. The three assignments of lines 122 to 124 reach the table in the one
  \<^verbatim>\<open>save()\<close> of line 125.
\<close>

definition apply_face_verification ::
  "session_id \<Rightarrow> attendance_session \<Rightarrow> student_id \<Rightarrow> timestamp \<Rightarrow> state
     \<Rightarrow> (error + outcome) \<times> state" where
  "apply_face_verification session_id sess matched_student_id now st =
     (case attendances st (session_id, matched_student_id) of
        None \<Rightarrow> (Inr RecordMissing, logger (ErrorRecordMissing matched_student_id) st)
      | Some attendance_record \<Rightarrow>
          (let st1 = logger (InfoRecordFound matched_student_id (status attendance_record)) st in
           if status attendance_record = Absent then
             (case grace_period_end sess of
                None \<Rightarrow> raise_unexpected session_id st1
              | Some grace_end \<Rightarrow>
                  (let new_status = (if now \<le> grace_end then Present else Late);
                       st2 = st1\<lparr>attendances := (attendances st1)
                               ((session_id, matched_student_id) \<mapsto>
                                  attendance_record\<lparr>status := new_status,
                                                     check_in_time := Some now,
                                                     verified_by_face := True\<rparr>)\<rparr>
                   in (Inr (Transitioned \<lparr>entry_id = matched_student_id,
                                           entry_full_name = full_names st matched_student_id,
                                           entry_status = new_status\<rparr>),
                       logger (InfoUpdated matched_student_id new_status) st2)))
           else (Inr NoOp,
                 logger (InfoAlreadyRecorded matched_student_id (status attendance_record)) st1)))"

text \<open>
  A sequence of applications to the same record, one per time stamp, in order, each in a
  call of its own: one that raises does not stop the later ones.
\<close>

fun apply_sequence ::
  "session_id \<Rightarrow> attendance_session \<Rightarrow> student_id \<Rightarrow> timestamp list \<Rightarrow> state
     \<Rightarrow> (error + outcome) list \<times> state" where
  "apply_sequence k sess u [] st = ([], st)"
| "apply_sequence k sess u (t # ts) st =
     (case apply_face_verification k sess u t st of
        (r, st') \<Rightarrow> (case apply_sequence k sess u ts st' of
                       (rs, st'') \<Rightarrow> (r # rs, st'')))"

definition is_transition :: "error + outcome \<Rightarrow> bool" where
  "is_transition r = (case r of Inr (Transitioned e) \<Rightarrow> True | _ \<Rightarrow> False)"

section \<open>The known encodings of a ficha and their cache\<close>

text \<open>
  Lines 56 to 65: the loop over \<^verbatim>\<open>ficha.students.all()\<close>, with the two lists it appends
  to and the warnings it logs.
\<close>

fun load_known ::
  "user list \<Rightarrow> encoding list \<Rightarrow> student_id list \<Rightarrow> log_event list
     \<Rightarrow> encoding list \<times> student_id list \<times> log_event list" where
  "load_known [] known_encodings known_student_ids warnings =
     (known_encodings, known_student_ids, warnings)"
| "load_known (student # rest) known_encodings known_student_ids warnings =
     (case face_encoding_data student of
        None \<Rightarrow> load_known rest known_encodings known_student_ids warnings
      | Some fe \<Rightarrow>
          if is_active fe then
            (case encoding_array fe of
               None \<Rightarrow> load_known rest known_encodings known_student_ids warnings
             | Some arr \<Rightarrow>
                 if length arr = 128 then
                   load_known rest (known_encodings @ [arr])
                     (known_student_ids @ [user_id student]) warnings
                 else
                   load_known rest known_encodings known_student_ids
                     (warnings @ [WarningWrongLength (user_id student) (length arr)]))
          else load_known rest known_encodings known_student_ids warnings)"

text \<open>
  Lines 46 to 73: the known encodings come from the cache when \<^verbatim>\<open>cache.get\<close> returns
  an entry (a pair is truthy whatever it holds), and from the database otherwise; an empty
  load returns the error at line 69, before \<^verbatim>\<open>cache.set\<close> at line 71.
\<close>

definition ensure_warm ::
  "ficha_rec \<Rightarrow> state \<Rightarrow> (error + encoding list \<times> student_id list) \<times> state" where
  "ensure_warm f st =
     (case cache st (ficha_pk f) of
        Some cached_data \<Rightarrow> (Inr cached_data, logger (InfoCacheHit (ficha_pk f)) st)
      | None \<Rightarrow>
          (case load_known (students f) [] [] [] of
             (known_encodings, known_student_ids, warnings) \<Rightarrow>
               (let st1 = logger (InfoLoadingFromDB (ficha_pk f) (length (students f)))
                            (st\<lparr>store_loads := Suc (store_loads st)\<rparr>);
                    st2 = st1\<lparr>log := log st1 @ warnings\<rparr>
                in if known_encodings = [] then
                     (Inl NoActiveEncodings, logger (WarningNoActiveEncodings (ficha_pk f)) st2)
                   else
                     (Inr (known_encodings, known_student_ids),
                      logger (InfoCached (length known_encodings))
                        (st2\<lparr>cache := (cache st2)
                                  (ficha_pk f \<mapsto> (known_encodings, known_student_ids))\<rparr>)))))"

text \<open>
  What the loop of lines 56 to 65 keeps of one student, said directly: the array and the id
  of a student whose face encoding exists, is active and has 128 components.
\<close>

definition usable_encoding :: "user \<Rightarrow> (encoding \<times> student_id) option" where
  "usable_encoding u =
     (case face_encoding_data u of
        None \<Rightarrow> None
      | Some fe \<Rightarrow>
          (case encoding_array fe of
             None \<Rightarrow> None
           | Some a \<Rightarrow> if is_active fe \<and> length a = 128 then Some (a, user_id u) else None))"

definition wrong_length_warning :: "user \<Rightarrow> log_event option" where
  "wrong_length_warning u =
     (case face_encoding_data u of
        None \<Rightarrow> None
      | Some fe \<Rightarrow>
          (case encoding_array fe of
             None \<Rightarrow> None
           | Some a \<Rightarrow> if is_active fe \<and> length a \<noteq> 128
                       then Some (WarningWrongLength (user_id u) (length a)) else None))"

text \<open>Every cached list of encodings is non-empty.\<close>

definition cache_nonempty :: "state \<Rightarrow> bool" where
  "cache_nonempty st = (\<forall>fid d. cache st fid = Some d \<longrightarrow> fst d \<noteq> [])"


section \<open>Matching one detected face\<close>

text \<open>
  What the service takes from outside: the distance of \<^verbatim>\<open>face_recognition.face_distance\<close>,
  the detection of lines 75 to 77 (\<open>None\<close> when the library raises), the value of
  \<^verbatim>\<open>timezone.now()\<close> while the face of a given index is processed, and
  \<^verbatim>\<open>settings.confidence_threshold\<close>.
\<close>

record 'img env =
  face_distance :: "encoding \<Rightarrow> encoding \<Rightarrow> real"
  detect_faces :: "'img \<Rightarrow> encoding list option"
  now_at :: "nat \<Rightarrow> timestamp"
  confidence_threshold :: real

text \<open>\<^verbatim>\<open>face_recognition.compare_faces\<close>: the distances compared with the tolerance.\<close>

definition compare_faces ::
  "(encoding \<Rightarrow> encoding \<Rightarrow> real) \<Rightarrow> encoding list \<Rightarrow> encoding \<Rightarrow> real \<Rightarrow> bool list" where
  "compare_faces distance known_encodings stream_encoding tolerance =
     map (\<lambda>k. distance k stream_encoding \<le> tolerance) known_encodings"

text \<open>Line 89.\<close>

definition matched_indices_of :: "bool list \<Rightarrow> nat list" where
  "matched_indices_of matches = filter (\<lambda>i. matches ! i) [0..<length matches]"

text \<open>
  Lines 85 to 138, one iteration of the loop over the detected faces: \<open>i\<close> is the index
  of the face and \<open>n\<close> the number of faces. The result is the outcome of the update of
  the attendance record when lines 108 to 138 ran, and \<open>None\<close> when they did not.
  Indexing \<^verbatim>\<open>known_student_ids\<close> out of range raises \<^verbatim>\<open>IndexError\<close>, and
  \<^verbatim>\<open>np.min\<close> of an empty array raises \<^verbatim>\<open>ValueError\<close>; these and an exception
  of lines 108 to 138 end the call with the error of line 147. An id that is
  \<^verbatim>\<open>0\<close> is falsy at line 107.
\<close>

definition process_face ::
  "'img env \<Rightarrow> encoding list \<Rightarrow> student_id list \<Rightarrow> session_id \<Rightarrow> attendance_session
     \<Rightarrow> nat \<Rightarrow> nat \<Rightarrow> encoding \<Rightarrow> state \<Rightarrow> (error + outcome option) \<times> state" where
  "process_face env known_encodings known_student_ids session_id sess i n stream_encoding st =
     (let st1 = logger (InfoProcessingFace (i + 1) n) st;
          matches = compare_faces (face_distance env) known_encodings stream_encoding
                      (confidence_threshold env);
          matched_indices = matched_indices_of matches
      in if length matched_indices = 1 then
           (if matched_indices ! 0 < length known_student_ids then
              (let matched_student_id = known_student_ids ! (matched_indices ! 0);
                   st2 = logger (InfoUniqueMatch matched_student_id) st1
               in if matched_student_id \<noteq> 0 then
                    (case apply_face_verification session_id sess matched_student_id (now_at env i) st2 of
                       (Inl e, st3) \<Rightarrow> (Inl e, st3)
                     | (Inr r, st3) \<Rightarrow> (Inr (Some r), st3))
                  else (Inr None, st2))
            else raise_unexpected session_id st1)
         else if length matched_indices > 1 then
           (if list_all (\<lambda>j. j < length known_student_ids) matched_indices then
              (Inr None,
               logger (WarningAmbiguous (i + 1) (map (\<lambda>j. known_student_ids ! j) matched_indices)) st1)
            else raise_unexpected session_id st1)
         else if known_encodings = [] then raise_unexpected session_id st1
         else (Inr None, logger (WarningNoMatch (i + 1)) st1))"

text \<open>Lines 83 to 140: the loop, with \<^verbatim>\<open>recognized_students\<close> as accumulator.\<close>

fun process_faces ::
  "'img env \<Rightarrow> encoding list \<Rightarrow> student_id list \<Rightarrow> session_id \<Rightarrow> attendance_session
     \<Rightarrow> nat \<Rightarrow> nat \<Rightarrow> encoding list \<Rightarrow> entry list \<Rightarrow> state \<Rightarrow> result \<times> state" where
  "process_faces env known ids session_id sess i n [] recognized_students st =
     (Inr recognized_students, st)"
| "process_faces env known ids session_id sess i n (stream_encoding # rest) recognized_students st =
     (case process_face env known ids session_id sess i n stream_encoding st of
        (Inl e, st') \<Rightarrow> (Inl e, st')
      | (Inr (Some (Transitioned e)), st') \<Rightarrow>
          process_faces env known ids session_id sess (Suc i) n rest (recognized_students @ [e]) st'
      | (Inr _, st') \<Rightarrow>
          process_faces env known ids session_id sess (Suc i) n rest recognized_students st')"

text \<open>
  The entries \<open>new\<close> stand for the attendance records of session \<open>k\<close> that differ
  between \<open>st\<close> and \<open>st'\<close>, one entry for each: the records that changed are those
  of the entries' students, each was absent before and has the entry's status after, which
  is present or late, and the entry carries the student's full name.
\<close>

definition entries_are_transitions :: "session_id \<Rightarrow> state \<Rightarrow> state \<Rightarrow> entry list \<Rightarrow> bool" where
  "entries_are_transitions k st st' new =
     (distinct (map entry_id new) \<and>
      (\<forall>key. attendances st' key \<noteq> attendances st key \<longleftrightarrow>
               key \<in> (\<lambda>e. (k, entry_id e)) ` set new) \<and>
      (\<forall>e \<in> set new.
         map_option status (attendances st (k, entry_id e)) = Some Absent \<and>
         map_option status (attendances st' (k, entry_id e)) = Some (entry_status e) \<and>
         (entry_status e = Present \<or> entry_status e = Late) \<and>
         entry_full_name e = full_names st (entry_id e)))"

section \<open>The service\<close>

text \<open>
  \<^verbatim>\<open>recognize_faces_in_stream(image_file, session_id)\<close>.
  \<^verbatim>\<open>Ficha.objects.get(sessions__id=session_id)\<close> finds the ficha of the session, and
  raises \<^verbatim>\<open>Ficha.DoesNotExist\<close> when there is no such session or it has no ficha.
\<close>

definition recognize_faces_in_stream ::
  "'img env \<Rightarrow> 'img \<Rightarrow> session_id \<Rightarrow> state \<Rightarrow> result \<times> state" where
  "recognize_faces_in_stream env image_file session_id st =
     (let st0 = logger InfoThreshold (logger (InfoStart session_id) st) in
      case sessions st0 session_id of
        None \<Rightarrow> (Inl FichaDoesNotExist, logger (ErrorNoFicha session_id) st0)
      | Some sess \<Rightarrow>
          (case ficha sess of
             None \<Rightarrow> (Inl FichaDoesNotExist, logger (ErrorNoFicha session_id) st0)
           | Some fid \<Rightarrow>
               (case fichas st0 fid of
                  None \<Rightarrow> (Inl FichaDoesNotExist, logger (ErrorNoFicha session_id) st0)
                | Some studs \<Rightarrow>
                    (case ensure_warm \<lparr>ficha_pk = fid, students = studs\<rparr> st0 of
                       (Inl e, st1) \<Rightarrow> (Inl e, st1)
                     | (Inr (known_encodings, known_student_ids), st1) \<Rightarrow>
                         (let st2 = st1\<lparr>detect_calls := Suc (detect_calls st1)\<rparr> in
                          case detect_faces env image_file of
                            None \<Rightarrow> raise_unexpected session_id st2
                          | Some stream_encodings \<Rightarrow>
                              (let st3 = logger (InfoDetected (length stream_encodings)) st2 in
                               if stream_encodings = [] then (Inl NoFaceDetected, st3)
                               else process_faces env known_encodings known_student_ids
                                      session_id sess 0 (length stream_encodings)
                                      stream_encodings [] st3))))))"

section \<open>Callers that run at the same time\<close>

text \<open>
  Lines 46 to 73 hold no lock. Between \<^verbatim>\<open>cache.get\<close> (line 47), the load from the
  database (lines 53 to 65) and \<^verbatim>\<open>cache.set\<close> (line 71) another request can run, so
  a caller is at one of these three places or has left the block with its result.
\<close>

datatype pc =
    AtCacheGet
  | AtLoad
  | AtCacheSet "encoding list \<times> student_id list"
  | Finished "error + encoding list \<times> student_id list"

definition caller_step :: "ficha_rec \<Rightarrow> pc \<Rightarrow> state \<Rightarrow> pc \<times> state" where
  "caller_step f p st =
     (case p of
        AtCacheGet \<Rightarrow>
          (case cache st (ficha_pk f) of
             Some cached_data \<Rightarrow> (Finished (Inr cached_data), logger (InfoCacheHit (ficha_pk f)) st)
           | None \<Rightarrow> (AtLoad, st))
      | AtLoad \<Rightarrow>
          (case load_known (students f) [] [] [] of
             (known_encodings, known_student_ids, warnings) \<Rightarrow>
               (let st1 = logger (InfoLoadingFromDB (ficha_pk f) (length (students f)))
                            (st\<lparr>store_loads := Suc (store_loads st)\<rparr>);
                    st2 = st1\<lparr>log := log st1 @ warnings\<rparr>
                in if known_encodings = [] then
                     (Finished (Inl NoActiveEncodings),
                      logger (WarningNoActiveEncodings (ficha_pk f)) st2)
                   else (AtCacheSet (known_encodings, known_student_ids), st2)))
      | AtCacheSet d \<Rightarrow>
          (Finished (Inr d),
           logger (InfoCached (length (fst d))) (st\<lparr>cache := (cache st)(ficha_pk f \<mapsto> d)\<rparr>))
      | Finished r \<Rightarrow> (Finished r, st))"

text \<open>A schedule names, step by step, the caller that runs next.\<close>

fun run :: "nat list \<Rightarrow> (ficha_rec \<times> pc) list \<Rightarrow> state \<Rightarrow> (ficha_rec \<times> pc) list \<times> state" where
  "run [] cs st = (cs, st)"
| "run (i # sched) cs st =
     (if i < length cs then
        (case caller_step (fst (cs ! i)) (snd (cs ! i)) st of
           (p', st') \<Rightarrow> run sched (cs[i := (fst (cs ! i), p')]) st')
      else run sched cs st)"

text \<open>How far a caller is: the number of steps it has taken, at least.\<close>

fun progress :: "pc \<Rightarrow> nat" where
  "progress AtCacheGet = 0"
| "progress AtLoad = 1"
| "progress (AtCacheSet d) = 2"
| "progress (Finished r) = 3"

text \<open>What every caller of a ficha gets while the ficha's students do not change.\<close>

definition expected_outcome :: "ficha_rec \<Rightarrow> error + encoding list \<times> student_id list" where
  "expected_outcome f =
     (case load_known (students f) [] [] [] of
        (known_encodings, known_student_ids, warnings) \<Rightarrow>
          if known_encodings = [] then Inl NoActiveEncodings
          else Inr (known_encodings, known_student_ids))"

text \<open>
  What holds at every moment while callers of one ficha \<open>f\<close> run in any order, from a
  state with \<open>l0\<close> loads so far: a caller past its load carries the outcome of the load,
  an entry in the cache is that outcome, every load was made by a caller that is past the
  load now, and once an entry is cached or a caller is past its load there was a load.
\<close>

definition cohort_invariant :: "ficha_rec \<Rightarrow> nat \<Rightarrow> (ficha_rec \<times> pc) list \<Rightarrow> state \<Rightarrow> bool" where
  "cohort_invariant f l0 cs st =
     ((\<forall>c \<in> set cs. fst c = f \<and>
          (case snd c of
             AtCacheSet d \<Rightarrow> expected_outcome f = Inr d
           | Finished r \<Rightarrow> r = expected_outcome f
           | _ \<Rightarrow> True)) \<and>
      (\<forall>d. cache st (ficha_pk f) = Some d \<longrightarrow> expected_outcome f = Inr d) \<and>
      l0 \<le> store_loads st \<and>
      store_loads st + length (filter (\<lambda>c. progress (snd c) < 2) cs) \<le> l0 + length cs \<and>
      ((cache st (ficha_pk f) \<noteq> None \<or> (\<exists>c \<in> set cs. 2 \<le> progress (snd c))) \<longrightarrow>
         l0 < store_loads st))"

section \<open>A small database for examples\<close>

text \<open>
  A session on 2024-10-04 that starts at 09:00:00 with ten minutes of grace, and a ficha of
  four students.
\<close>

definition example_session :: attendance_session where
  "example_session = \<lparr>ficha = Some 1, date = 739162, start_time = 32400000000, permisividad = 10\<rparr>"

definition example_record :: attendance where
  "example_record = \<lparr>status = Absent, check_in_time = None, verified_by_face = False\<rparr>"

definition example_user :: "student_id \<Rightarrow> bool \<Rightarrow> encoding \<Rightarrow> user" where
  "example_user u a e = \<lparr>user_id = u, face_encoding_data = Some \<lparr>is_active = a, encoding_array = Some e\<rparr>\<rparr>"

definition example_ficha :: ficha_rec where
  "example_ficha = \<lparr>ficha_pk = 1, students =
     [example_user 7 True (replicate 128 0), example_user 8 True (replicate 128 1),
      example_user 9 True [0, 0], example_user 10 False (replicate 128 3)]\<rparr>"

text \<open>A second ficha, none of whose students has a usable encoding, and its session.\<close>

definition empty_ficha :: ficha_rec where
  "empty_ficha = \<lparr>ficha_pk = 2, students =
     [example_user 11 True [0, 0], example_user 12 False (replicate 128 3),
      \<lparr>user_id = 13, face_encoding_data = None\<rparr>]\<rparr>"

definition empty_session :: attendance_session where
  "empty_session = \<lparr>ficha = Some 2, date = 739162, start_time = 32400000000, permisividad = 0\<rparr>"

definition example_state :: state where
  "example_state = \<lparr>attendances = [(1, 7) \<mapsto> example_record],
     sessions = [1 \<mapsto> example_session, 2 \<mapsto> empty_session],
     fichas = [1 \<mapsto> students example_ficha, 2 \<mapsto> students empty_ficha],
     full_names = (\<lambda>u. ''Ana''), cache = Map.empty, log = [],
     store_loads = 0, detect_calls = 0\<rparr>"

text \<open>
  An environment for examples: an image is given by the encodings of the faces in it, two
  encodings are as far apart as their first components, the tolerance is a parameter, and
  the clock shows 09:10:00 of that day at the first face and a microsecond more at each
  later one.
\<close>

definition first_component :: "encoding \<Rightarrow> real" where
  "first_component e = (case e of [] \<Rightarrow> 0 | x # xs \<Rightarrow> x)"

definition example_env :: "real \<Rightarrow> encoding list env" where
  "example_env tolerance =
     \<lparr>face_distance = (\<lambda>a b. \<bar>first_component a - first_component b\<bar>),
      detect_faces = Some,
      now_at = (\<lambda>i. 63863629800000000 + int i),
      confidence_threshold = tolerance\<rparr>"

text \<open>
  The students of the first ficha after the encodings of students 7 and 8 have been
  deactivated, and the state in which that happened after a call of the service for the
  session had cached the known encodings.
\<close>

definition deactivated_students :: "user list" where
  "deactivated_students =
     [example_user 7 False (replicate 128 0), example_user 8 False (replicate 128 1),
      example_user 9 True [0, 0], example_user 10 False (replicate 128 3)]"

definition stale_state :: state where
  "stale_state =
     (snd (recognize_faces_in_stream (example_env (1/2)) [replicate 128 5] 1 example_state))
       \<lparr>fichas := (fichas example_state)(1 \<mapsto> deactivated_students)\<rparr>"

text \<open>A session on 9999-12-31 that starts at 23:55:00 with ten minutes of grace.\<close>

definition last_session :: attendance_session where
  "last_session = \<lparr>ficha = Some 1, date = 3652058, start_time = 86100000000, permisividad = 10\<rparr>"

section \<open>The update of one attendance record\<close>

lemma attendances_logger [simp]: "attendances (logger e st) = attendances st"
  by (simp add: logger_def)

lemma grace_period_end_in_range:
  assumes "0 \<le> date s" and "date s \<le> 3652058"
    and "0 \<le> start_time s" and "start_time s < 86400000000"
    and "0 \<le> date s * 86400000000 + start_time s + permisividad s * 60000000"
    and "date s * 86400000000 + start_time s + permisividad s * 60000000 \<le> 315537897599999999"
  shows "grace_period_end s =
           Some (date s * 86400000000 + start_time s + permisividad s * 60000000)"
proof -
  from assms have "- 1439999998560 \<le> permisividad s" and "permisividad s < 1440000000000"
    by linarith+
  with assms(5,6) show ?thesis
    by (simp add: grace_period_end_def timedelta_minutes_def session_start_datetime_def
        datetime_max_def)
qed

lemma grace_period_end_out_of_range:
  assumes "\<not> (0 \<le> date s * 86400000000 + start_time s + permisividad s * 60000000 \<and>
              date s * 86400000000 + start_time s + permisividad s * 60000000 \<le> 315537897599999999)"
  shows "grace_period_end s = None"
  using assms
  by (auto simp add: grace_period_end_def timedelta_minutes_def session_start_datetime_def
      datetime_max_def Let_def)

lemma apply_absent:
  assumes "attendances st (k, u) = Some r" and "status r = Absent"
    and "grace_period_end sess = Some b"
  shows "fst (apply_face_verification k sess u now st) =
           Inr (Transitioned \<lparr>entry_id = u, entry_full_name = full_names st u,
                              entry_status = (if now \<le> b then Present else Late)\<rparr>)"
    and "attendances (snd (apply_face_verification k sess u now st)) =
           (attendances st)((k, u) \<mapsto> r\<lparr>status := (if now \<le> b then Present else Late),
                                          check_in_time := Some now, verified_by_face := True\<rparr>)"
  using assms by (simp_all add: apply_face_verification_def Let_def)

lemma apply_absent_overflow:
  assumes "attendances st (k, u) = Some r" and "status r = Absent"
    and "grace_period_end sess = None"
  shows "fst (apply_face_verification k sess u now st) = Inl Unexpected"
    and "attendances (snd (apply_face_verification k sess u now st)) = attendances st"
  using assms by (simp_all add: apply_face_verification_def Let_def raise_unexpected_def)

lemma apply_not_absent:
  "attendances st (k, u) = Some r \<Longrightarrow> status r \<noteq> Absent \<Longrightarrow>
   fst (apply_face_verification k sess u now st) = Inr NoOp \<and>
   attendances (snd (apply_face_verification k sess u now st)) = attendances st"
  by (simp add: apply_face_verification_def Let_def)

lemma apply_missing:
  "attendances st (k, u) = None \<Longrightarrow>
   fst (apply_face_verification k sess u now st) = Inr RecordMissing \<and>
   attendances (snd (apply_face_verification k sess u now st)) = attendances st"
  by (simp add: apply_face_verification_def)

lemma apply_sequence_not_absent:
  "attendances st (k, u) = Some r \<Longrightarrow> status r \<noteq> Absent \<Longrightarrow>
   fst (apply_sequence k sess u ts st) = replicate (length ts) (Inr NoOp) \<and>
   attendances (snd (apply_sequence k sess u ts st)) = attendances st"
proof (induction ts arbitrary: st)
  case Nil
  then show ?case by simp
next
  case (Cons t ts)
  obtain o1 st1 where a: "apply_face_verification k sess u t st = (o1, st1)"
    by (cases "apply_face_verification k sess u t st")
  from apply_not_absent [OF Cons.prems, of sess t] a
  have o1: "o1 = Inr NoOp" and st1: "attendances st1 = attendances st" by simp_all
  from Cons.prems st1 have "attendances st1 (k, u) = Some r" by simp
  from Cons.IH [OF this Cons.prems(2)] a o1 st1 show ?case
    by (simp add: split_beta)
qed

lemma filter_transition_NoOp: "filter is_transition (replicate n (Inr NoOp)) = []"
  by (induction n) (simp_all add: is_transition_def)

text \<open>
  Claim C1. Face verification applied again and again to the same attendance record, at
  time stamps that do not decrease, to a record that is absent at first, for a session
  whose date and start time are a date and a time and whose start plus grace is an instant
  of \<^verbatim>\<open>datetime\<close>: the first application is the one transition, every later one finds a
  status that is not absent and changes nothing, and the status, check-in time and face
  flag at the end are those the first application wrote. (The order of the time stamps
  plays no part.)
\<close>

theorem idempotent_applications:
  assumes rec: "attendances st (k, u) = Some r" and absent: "status r = Absent"
    and mono: "sorted (t # ts)"
    and a_date: "0 \<le> date sess" "date sess \<le> 3652058"
    and a_time: "0 \<le> start_time sess" "start_time sess < 86400000000"
    and boundary: "b = date sess * 86400000000 + start_time sess + permisividad sess * 60000000"
    and representable: "0 \<le> b" "b \<le> 315537897599999999"
  shows "fst (apply_sequence k sess u (t # ts) st) =
           Inr (Transitioned \<lparr>entry_id = u, entry_full_name = full_names st u,
                              entry_status = (if t \<le> b then Present else Late)\<rparr>)
             # replicate (length ts) (Inr NoOp)
         \<and> length (filter is_transition (fst (apply_sequence k sess u (t # ts) st))) = 1
         \<and> attendances (snd (apply_sequence k sess u (t # ts) st)) =
             attendances (snd (apply_face_verification k sess u t st))
         \<and> attendances (snd (apply_sequence k sess u (t # ts) st)) (k, u) =
             Some (r\<lparr>status := (if t \<le> b then Present else Late), check_in_time := Some t,
                     verified_by_face := True\<rparr>)"
proof -
  from grace_period_end_in_range [OF a_date a_time] representable boundary
  have g: "grace_period_end sess = Some b" by simp
  obtain o1 st1 where a: "apply_face_verification k sess u t st = (o1, st1)"
    by (cases "apply_face_verification k sess u t st")
  let ?s = "if t \<le> b then Present else Late"
  let ?r' = "r\<lparr>status := ?s, check_in_time := Some t, verified_by_face := True\<rparr>"
  from apply_absent [OF rec absent g, of t] a
  have o1: "o1 = Inr (Transitioned \<lparr>entry_id = u, entry_full_name = full_names st u,
                                    entry_status = ?s\<rparr>)"
    and st1: "attendances st1 = (attendances st)((k, u) \<mapsto> ?r')" by simp_all
  have r1: "attendances st1 (k, u) = Some ?r'" using st1 by simp
  have na: "status ?r' \<noteq> Absent" by simp
  from apply_sequence_not_absent [OF r1 na, of sess ts]
  have rest: "fst (apply_sequence k sess u ts st1) = replicate (length ts) (Inr NoOp)"
    and att: "attendances (snd (apply_sequence k sess u ts st1)) = attendances st1" by simp_all
  have seq: "apply_sequence k sess u (t # ts) st =
      (o1 # fst (apply_sequence k sess u ts st1), snd (apply_sequence k sess u ts st1))"
    using a by (simp add: split_beta)
  show ?thesis using seq o1 rest att a r1 filter_transition_NoOp
    by (simp add: is_transition_def)
qed

lemma example_lookup: "attendances example_state (1, 7) = Some example_record"
  by (simp add: example_state_def)

lemma example_absent: "status example_record = Absent"
  by (simp add: example_record_def)

lemma example_session_fields:
  "date example_session = 739162" "start_time example_session = 32400000000"
  "permisividad example_session = 10"
  by (simp_all add: example_session_def)

lemma example_grace_period_end: "grace_period_end example_session = Some 63863629800000000"
  by (simp add: grace_period_end_def timedelta_minutes_def session_start_datetime_def
      datetime_max_def example_session_def)

theorem idempotent_applications_witness:
  "fst (apply_sequence 1 example_session 7
          [63863629800000000, 63863629800000001, 63863636799000000] example_state)
     = [Inr (Transitioned \<lparr>entry_id = 7, entry_full_name = ''Ana'', entry_status = Present\<rparr>),
        Inr NoOp, Inr NoOp]
   \<and> attendances (snd (apply_sequence 1 example_session 7
        [63863629800000000, 63863629800000001, 63863636799000000] example_state)) (1, 7)
     = Some \<lparr>status = Present, check_in_time = Some 63863629800000000, verified_by_face = True\<rparr>
   \<and> fst (apply_sequence 1 example_session 7
          [63863629800000001, 63863636799000000] example_state)
     = [Inr (Transitioned \<lparr>entry_id = 7, entry_full_name = ''Ana'', entry_status = Late\<rparr>),
        Inr NoOp]"
proof -
  have mono: "sorted [63863629800000000, 63863629800000001, 63863636799000000 :: int]"
    "sorted [63863629800000001, 63863636799000000 :: int]" by simp_all
  have b: "(63863629800000000 :: int) =
             date example_session * 86400000000 + start_time example_session
               + permisividad example_session * 60000000"
    by (simp add: example_session_fields)
  have f: "0 \<le> date example_session" "date example_session \<le> 3652058"
    "0 \<le> start_time example_session" "start_time example_session < 86400000000"
    by (simp_all add: example_session_fields)
  have r: "(0 :: int) \<le> 63863629800000000" "(63863629800000000 :: int) \<le> 315537897599999999"
    by simp_all
  note one = idempotent_applications [OF example_lookup example_absent mono(1) f b r]
  note two = idempotent_applications [OF example_lookup example_absent mono(2) f b r]
  from one [THEN conjunct1] one [THEN conjunct2, THEN conjunct2, THEN conjunct2]
    two [THEN conjunct1]
  show ?thesis by (simp add: example_record_def example_state_def)
qed

text \<open>
  Claim C2. For an absent record and a session whose date and start time are a date and a
  time, with the boundary the date's midnight plus the start time plus the minutes of
  grace: when the boundary is an instant of \<^verbatim>\<open>datetime\<close> the transition records present
  for an observed time up to and including the boundary and late after it; when it is not,
  line 118 raises, the call ends with the error and the record stays as it was. A session
  that starts at 09:00:00 with ten minutes of grace gives present at 09:10:00 and late at
  09:10:01 of its day.
\<close>

theorem grace_boundary:
  assumes rec: "attendances st (k, u) = Some r" and absent: "status r = Absent"
    and a_date: "0 \<le> date sess" "date sess \<le> 3652058"
    and a_time: "0 \<le> start_time sess" "start_time sess < 86400000000"
    and boundary: "b = date sess * 86400000000 + start_time sess + permisividad sess * 60000000"
  shows "(0 \<le> b \<and> b \<le> 315537897599999999 \<longrightarrow>
            fst (apply_face_verification k sess u now st) =
              Inr (Transitioned \<lparr>entry_id = u, entry_full_name = full_names st u,
                                 entry_status = (if now \<le> b then Present else Late)\<rparr>) \<and>
            map_option status (attendances (snd (apply_face_verification k sess u now st)) (k, u)) =
              Some (if now \<le> b then Present else Late))
       \<and> (\<not> (0 \<le> b \<and> b \<le> 315537897599999999) \<longrightarrow>
            fst (apply_face_verification k sess u now st) = Inl Unexpected \<and>
            attendances (snd (apply_face_verification k sess u now st)) = attendances st)
       \<and> (start_time sess = 32400000000 \<and> permisividad sess = 10 \<longrightarrow>
            map_option status (attendances (snd (apply_face_verification k sess u
              (date sess * 86400000000 + 33000000000) st)) (k, u)) = Some Present \<and>
            map_option status (attendances (snd (apply_face_verification k sess u
              (date sess * 86400000000 + 33001000000) st)) (k, u)) = Some Late)"
proof (intro conjI impI)
  assume in_range: "0 \<le> b \<and> b \<le> 315537897599999999"
  from grace_period_end_in_range [OF a_date a_time] in_range boundary
  have g: "grace_period_end sess = Some b" by simp
  from apply_absent [OF rec absent g, of now]
  show "fst (apply_face_verification k sess u now st) =
              Inr (Transitioned \<lparr>entry_id = u, entry_full_name = full_names st u,
                                 entry_status = (if now \<le> b then Present else Late)\<rparr>)"
    and "map_option status (attendances (snd (apply_face_verification k sess u now st)) (k, u)) =
              Some (if now \<le> b then Present else Late)"
    by simp_all
next
  assume "\<not> (0 \<le> b \<and> b \<le> 315537897599999999)"
  with boundary have g: "grace_period_end sess = None"
    by (intro grace_period_end_out_of_range) simp
  from apply_absent_overflow [OF rec absent g, of now]
  show "fst (apply_face_verification k sess u now st) = Inl Unexpected"
    and "attendances (snd (apply_face_verification k sess u now st)) = attendances st"
    by simp_all
next
  assume nine: "start_time sess = 32400000000 \<and> permisividad sess = 10"
  with a_date have "grace_period_end sess = Some (date sess * 86400000000 + 33000000000)"
    by (subst grace_period_end_in_range) simp_all
  from apply_absent(2) [OF rec absent this]
  show "map_option status (attendances (snd (apply_face_verification k sess u
              (date sess * 86400000000 + 33000000000) st)) (k, u)) = Some Present"
    and "map_option status (attendances (snd (apply_face_verification k sess u
              (date sess * 86400000000 + 33001000000) st)) (k, u)) = Some Late"
    by simp_all
qed

lemma last_session_fields:
  "date last_session = 3652058" "start_time last_session = 86100000000"
  "permisividad last_session = 10"
  by (simp_all add: last_session_def)

theorem grace_boundary_witness:
  "map_option status (attendances (snd (apply_face_verification 1 example_session 7
       63863629800000000 example_state)) (1, 7)) = Some Present
   \<and> map_option status (attendances (snd (apply_face_verification 1 example_session 7
       63863629800000001 example_state)) (1, 7)) = Some Late
   \<and> map_option status (attendances (snd (apply_face_verification 1 example_session 7
       63863629801000000 example_state)) (1, 7)) = Some Late
   \<and> fst (apply_face_verification 1 last_session 7 63863629800000000 example_state) = Inl Unexpected
   \<and> attendances (snd (apply_face_verification 1 last_session 7 63863629800000000 example_state))
       (1, 7) = Some example_record"
proof -
  have b: "(63863629800000000 :: int) =
             date example_session * 86400000000 + start_time example_session
               + permisividad example_session * 60000000"
    by (simp add: example_session_fields)
  have f: "0 \<le> date example_session" "date example_session \<le> 3652058"
    "0 \<le> start_time example_session" "start_time example_session < 86400000000"
    by (simp_all add: example_session_fields)
  have b': "(315537897900000000 :: int) =
             date last_session * 86400000000 + start_time last_session
               + permisividad last_session * 60000000"
    by (simp add: last_session_fields)
  have f': "0 \<le> date last_session" "date last_session \<le> 3652058"
    "0 \<le> start_time last_session" "start_time last_session < 86400000000"
    by (simp_all add: last_session_fields)
  note on = grace_boundary [OF example_lookup example_absent f b, THEN conjunct1, rule_format]
  note nine = grace_boundary [OF example_lookup example_absent f b, THEN conjunct2, THEN conjunct2,
      rule_format]
  note over = grace_boundary [OF example_lookup example_absent f' b', THEN conjunct2, THEN conjunct1,
      rule_format]
  from on [of 63863629800000000] on [of 63863629800000001] nine
    over [of 63863629800000000] example_lookup
  show ?thesis by (simp add: example_session_fields)
qed

text \<open>
  Claim C4. Applied to an absent record, for a session whose date and start time are a
  date and a time and whose start plus grace is an instant of \<^verbatim>\<open>datetime\<close>, the update
  writes present for a current time up to the boundary and late after it, that time as
  check-in time and the face flag, in one update of the row; no update leaves a record
  absent or excused that was not so before, and no row is created or deleted.
\<close>

theorem absent_record_update:
  assumes boundary: "b = date sess * 86400000000 + start_time sess + permisividad sess * 60000000"
  shows "(attendances st (k, u) = Some r \<and> status r = Absent \<and>
          0 \<le> date sess \<and> date sess \<le> 3652058 \<and>
          0 \<le> start_time sess \<and> start_time sess < 86400000000 \<and>
          0 \<le> b \<and> b \<le> 315537897599999999 \<longrightarrow>
            attendances (snd (apply_face_verification k sess u now st)) =
              (attendances st)((k, u) \<mapsto> r\<lparr>status := (if now \<le> b then Present else Late),
                                             check_in_time := Some now,
                                             verified_by_face := True\<rparr>))
       \<and> (\<forall>key r'. attendances (snd (apply_face_verification k sess u now st)) key = Some r' \<and>
                    (status r' = Absent \<or> status r' = Excused) \<longrightarrow> attendances st key = Some r')
       \<and> dom (attendances (snd (apply_face_verification k sess u now st))) = dom (attendances st)"
proof (intro conjI allI impI)
  assume h: "attendances st (k, u) = Some r \<and> status r = Absent \<and>
          0 \<le> date sess \<and> date sess \<le> 3652058 \<and>
          0 \<le> start_time sess \<and> start_time sess < 86400000000 \<and>
          0 \<le> b \<and> b \<le> 315537897599999999"
  with boundary grace_period_end_in_range [of sess]
  have g: "grace_period_end sess = Some b" by simp
  from h apply_absent(2) [OF _ _ g, of st k u r now]
  show "attendances (snd (apply_face_verification k sess u now st)) =
              (attendances st)((k, u) \<mapsto> r\<lparr>status := (if now \<le> b then Present else Late),
                                             check_in_time := Some now,
                                             verified_by_face := True\<rparr>)"
    by simp
next
  fix key r'
  assume h: "attendances (snd (apply_face_verification k sess u now st)) key = Some r' \<and>
             (status r' = Absent \<or> status r' = Excused)"
  show "attendances st key = Some r'"
  proof (cases "attendances st (k, u)")
    case None
    with h apply_missing [of st k u sess now] show ?thesis by simp
  next
    case (Some r)
    show ?thesis
    proof (cases "status r = Absent")
      case True
      show ?thesis
      proof (cases "grace_period_end sess")
        case None
        with Some True h apply_absent_overflow(2) [of st k u r sess now] show ?thesis by simp
      next
        case (Some e)
        with \<open>attendances st (k, u) = Some r\<close> True h apply_absent(2) [of st k u r sess e now]
        show ?thesis by (auto split: if_splits)
      qed
    next
      case False
      with Some h apply_not_absent [of st k u r sess now] show ?thesis by simp
    qed
  qed
next
  show "dom (attendances (snd (apply_face_verification k sess u now st))) = dom (attendances st)"
  proof (cases "attendances st (k, u)")
    case None
    with apply_missing [of st k u sess now] show ?thesis by simp
  next
    case (Some r)
    show ?thesis
    proof (cases "status r = Absent")
      case False
      with Some apply_not_absent [of st k u r sess now] show ?thesis by simp
    next
      case True
      show ?thesis
      proof (cases "grace_period_end sess")
        case None
        with Some True apply_absent_overflow(2) [of st k u r sess now] show ?thesis by simp
      next
        case (Some e)
        with \<open>attendances st (k, u) = Some r\<close> True apply_absent(2) [of st k u r sess e now]
        show ?thesis by auto
      qed
    qed
  qed
qed

theorem absent_record_update_witness:
  "attendances (snd (apply_face_verification 1 example_session 7 63863629800000000 example_state)) =
     [(1, 7) \<mapsto> \<lparr>status = Present, check_in_time = Some 63863629800000000, verified_by_face = True\<rparr>]
   \<and> attendances (snd (apply_face_verification 1 example_session 7 63863629800000001 example_state)) =
     [(1, 7) \<mapsto> \<lparr>status = Late, check_in_time = Some 63863629800000001, verified_by_face = True\<rparr>]"
proof -
  have b: "(63863629800000000 :: int) =
             date example_session * 86400000000 + start_time example_session
               + permisividad example_session * 60000000"
    by (simp add: example_session_fields)
  have h: "attendances example_state (1, 7) = Some example_record \<and> status example_record = Absent \<and>
          0 \<le> date example_session \<and> date example_session \<le> 3652058 \<and>
          0 \<le> start_time example_session \<and> start_time example_session < 86400000000 \<and>
          (0 :: int) \<le> 63863629800000000 \<and> (63863629800000000 :: int) \<le> 315537897599999999"
    using example_lookup example_absent by (simp add: example_session_fields)
  note inst = absent_record_update [OF b, THEN conjunct1, rule_format, OF h]
  from inst [of 63863629800000000] inst [of 63863629800000001]
  show ?thesis by (simp add: example_state_def example_record_def)
qed

section \<open>The known encodings\<close>

lemma load_known_acc:
  "load_known xs encs ids ws =
     (encs @ map fst (List.map_filter usable_encoding xs),
      ids @ map snd (List.map_filter usable_encoding xs),
      ws @ List.map_filter wrong_length_warning xs)"
proof (induction xs arbitrary: encs ids ws)
  case Nil
  then show ?case by (simp add: List.map_filter_simps)
next
  case (Cons x xs)
  show ?case
  proof (cases "face_encoding_data x")
    case None
    then show ?thesis
      by (simp add: Cons.IH List.map_filter_simps usable_encoding_def wrong_length_warning_def)
  next
    case (Some fe)
    then show ?thesis
      by (cases "encoding_array fe")
         (simp_all add: Cons.IH List.map_filter_simps usable_encoding_def wrong_length_warning_def)
  qed
qed

lemma load_known_eq:
  "load_known xs [] [] [] =
     (map fst (List.map_filter usable_encoding xs),
      map snd (List.map_filter usable_encoding xs),
      List.map_filter wrong_length_warning xs)"
  by (simp add: load_known_acc)


lemma cache_logger [simp]: "cache (logger e st) = cache st"
  by (simp add: logger_def)

lemma fichas_logger [simp]: "fichas (logger e st) = fichas st"
  by (simp add: logger_def)

lemma sessions_logger [simp]: "sessions (logger e st) = sessions st"
  by (simp add: logger_def)

lemma store_loads_logger [simp]: "store_loads (logger e st) = store_loads st"
  by (simp add: logger_def)

lemma detect_calls_logger [simp]: "detect_calls (logger e st) = detect_calls st"
  by (simp add: logger_def)

lemma full_names_logger [simp]: "full_names (logger e st) = full_names st"
  by (simp add: logger_def)

lemma ensure_warm_hit:
  "cache st (ficha_pk f) = Some d \<Longrightarrow>
   ensure_warm f st = (Inr d, logger (InfoCacheHit (ficha_pk f)) st)"
  by (simp add: ensure_warm_def)

lemma ensure_warm_miss_empty:
  assumes "cache st (ficha_pk f) = None" and "List.map_filter usable_encoding (students f) = []"
  shows "fst (ensure_warm f st) = Inl NoActiveEncodings"
    and "cache (snd (ensure_warm f st)) = cache st"
    and "store_loads (snd (ensure_warm f st)) = Suc (store_loads st)"
    and "attendances (snd (ensure_warm f st)) = attendances st"
    and "detect_calls (snd (ensure_warm f st)) = detect_calls st"
  using assms by (simp_all add: ensure_warm_def load_known_eq Let_def)

lemma ensure_warm_miss_nonempty:
  assumes "cache st (ficha_pk f) = None" and "List.map_filter usable_encoding (students f) \<noteq> []"
  shows "fst (ensure_warm f st) =
           Inr (map fst (List.map_filter usable_encoding (students f)),
                map snd (List.map_filter usable_encoding (students f)))"
    and "cache (snd (ensure_warm f st)) =
           (cache st)(ficha_pk f \<mapsto> (map fst (List.map_filter usable_encoding (students f)),
                                       map snd (List.map_filter usable_encoding (students f))))"
    and "store_loads (snd (ensure_warm f st)) = Suc (store_loads st)"
    and "attendances (snd (ensure_warm f st)) = attendances st"
  using assms by (simp_all add: ensure_warm_def load_known_eq Let_def)

lemma ensure_warm_fixed [simp]:
  "attendances (snd (ensure_warm f st)) = attendances st"
  "fichas (snd (ensure_warm f st)) = fichas st"
  "sessions (snd (ensure_warm f st)) = sessions st"
  "detect_calls (snd (ensure_warm f st)) = detect_calls st"
  "full_names (snd (ensure_warm f st)) = full_names st"
  by (simp_all add: ensure_warm_def load_known_eq Let_def split: option.splits)

lemma ensure_warm_nonempty:
  "cache_nonempty st \<Longrightarrow> cache_nonempty (snd (ensure_warm f st))"
  by (auto simp add: cache_nonempty_def ensure_warm_def load_known_eq Let_def split: option.splits)

lemma ensure_warm_result_nonempty:
  "cache_nonempty st \<Longrightarrow> fst (ensure_warm f st) = Inr (encs, ids) \<Longrightarrow> encs \<noteq> []"
  by (auto simp add: cache_nonempty_def ensure_warm_def load_known_eq Let_def
      split: option.splits if_splits)

lemma usable_example:
  "List.map_filter usable_encoding (students example_ficha) =
     [(replicate 128 0, 7), (replicate 128 1, 8)]"
  by (simp add: example_ficha_def example_user_def List.map_filter_simps usable_encoding_def)

lemma example_ficha_row:
  "fichas example_state (ficha_pk example_ficha) = Some (students example_ficha)"
  by (simp add: example_state_def example_ficha_def)

lemma example_miss: "cache example_state (ficha_pk example_ficha) = None"
  by (simp add: example_state_def)



section \<open>The cache\<close>

lemma apply_face_verification_fixed [simp]:
  "cache (snd (apply_face_verification k sess u now st)) = cache st"
  "fichas (snd (apply_face_verification k sess u now st)) = fichas st"
  "sessions (snd (apply_face_verification k sess u now st)) = sessions st"
  "store_loads (snd (apply_face_verification k sess u now st)) = store_loads st"
  "detect_calls (snd (apply_face_verification k sess u now st)) = detect_calls st"
  "full_names (snd (apply_face_verification k sess u now st)) = full_names st"
  by (simp_all add: apply_face_verification_def raise_unexpected_def Let_def split: option.splits)

lemma process_face_fixed [simp]:
  "cache (snd (process_face env known ids k sess i n enc st)) = cache st"
  "fichas (snd (process_face env known ids k sess i n enc st)) = fichas st"
  "sessions (snd (process_face env known ids k sess i n enc st)) = sessions st"
  "store_loads (snd (process_face env known ids k sess i n enc st)) = store_loads st"
  "detect_calls (snd (process_face env known ids k sess i n enc st)) = detect_calls st"
  "full_names (snd (process_face env known ids k sess i n enc st)) = full_names st"
  by (simp_all add: process_face_def raise_unexpected_def Let_def split_beta split: sum.splits)

lemma process_faces_step:
  "process_faces env known ids k sess i n (enc # rest) acc st =
     (case fst (process_face env known ids k sess i n enc st) of
        Inl e \<Rightarrow> (Inl e, snd (process_face env known ids k sess i n enc st))
      | Inr (Some (Transitioned e)) \<Rightarrow>
          process_faces env known ids k sess (Suc i) n rest (acc @ [e])
            (snd (process_face env known ids k sess i n enc st))
      | Inr _ \<Rightarrow>
          process_faces env known ids k sess (Suc i) n rest acc
            (snd (process_face env known ids k sess i n enc st)))"
  by (cases "process_face env known ids k sess i n enc st")
     (simp split: sum.splits option.splits outcome.splits)

lemma process_faces_fixed:
  "cache (snd (process_faces env known ids k sess i n encs acc st)) = cache st \<and>
   fichas (snd (process_faces env known ids k sess i n encs acc st)) = fichas st \<and>
   sessions (snd (process_faces env known ids k sess i n encs acc st)) = sessions st \<and>
   store_loads (snd (process_faces env known ids k sess i n encs acc st)) = store_loads st \<and>
   detect_calls (snd (process_faces env known ids k sess i n encs acc st)) = detect_calls st \<and>
   full_names (snd (process_faces env known ids k sess i n encs acc st)) = full_names st"
proof (induction encs arbitrary: i acc st)
  case Nil
  then show ?case by simp
next
  case (Cons enc rest)
  show ?case
    unfolding process_faces_step
    by (simp add: Cons.IH split: sum.splits option.splits outcome.splits)
qed

lemma recognize_cache:
  "cache (snd (recognize_faces_in_stream env img k st)) = cache st \<or>
   (\<exists>f st0. cache st0 = cache st \<and>
      cache (snd (recognize_faces_in_stream env img k st)) = cache (snd (ensure_warm f st0)))"
proof -
  let ?st0 = "logger InfoThreshold (logger (InfoStart k) st)"
  have c0: "cache ?st0 = cache st" by simp
  show ?thesis
  proof (cases "sessions st k")
    case None
    then show ?thesis by (simp add: recognize_faces_in_stream_def)
  next
    case (Some sess)
    show ?thesis
    proof (cases "ficha sess")
      case None
      with Some show ?thesis by (simp add: recognize_faces_in_stream_def)
    next
      case fid: (Some fid)
      show ?thesis
      proof (cases "fichas st fid")
        case None
        with Some fid show ?thesis by (simp add: recognize_faces_in_stream_def)
      next
        case f: (Some studs)
        let ?f = "\<lparr>ficha_pk = fid, students = studs\<rparr>"
        have "cache (snd (recognize_faces_in_stream env img k st)) = cache (snd (ensure_warm ?f ?st0))"
          using Some fid f
          by (cases "ensure_warm ?f ?st0")
             (auto simp add: recognize_faces_in_stream_def raise_unexpected_def Let_def
               process_faces_fixed split: sum.splits option.splits)
        with c0 show ?thesis by blast
      qed
    qed
  qed
qed

lemma recognize_fichas [simp]:
  "fichas (snd (recognize_faces_in_stream env img k st)) = fichas st"
  by (auto simp add: recognize_faces_in_stream_def raise_unexpected_def Let_def
      process_faces_fixed split_beta split: sum.splits option.splits)

lemma cache_nonempty_cong: "cache st' = cache st \<Longrightarrow> cache_nonempty st' = cache_nonempty st"
  by (simp add: cache_nonempty_def)

lemma recognize_nonempty:
  "cache_nonempty st \<Longrightarrow> cache_nonempty (snd (recognize_faces_in_stream env img k st))"
  using recognize_cache [of env img k st]
  by (metis cache_nonempty_cong ensure_warm_nonempty)

text \<open>
  Claim C9. The cache only ever holds non-empty lists of encodings: a call of the service
  keeps that. When a load finds no usable encoding the error is returned with the cache as
  it was, so the next call for the ficha loads from the database again; a cache hit gives a
  non-empty known set, without a load.
\<close>

theorem cache_holds_nonempty_lists:
  "(cache_nonempty st \<longrightarrow> cache_nonempty (snd (recognize_faces_in_stream env img k st)))
   \<and> (cache st (ficha_pk f) = None \<and> fst (load_known (students f) [] [] []) = [] \<longrightarrow>
        fst (ensure_warm f st) = Inl NoActiveEncodings \<and>
        cache (snd (ensure_warm f st)) = cache st \<and>
        store_loads (snd (ensure_warm f st)) = Suc (store_loads st) \<and>
        fst (ensure_warm f (snd (ensure_warm f st))) = Inl NoActiveEncodings \<and>
        store_loads (snd (ensure_warm f (snd (ensure_warm f st)))) = Suc (Suc (store_loads st)))
   \<and> (cache_nonempty st \<and> cache st (ficha_pk f) = Some (encs, ids) \<longrightarrow>
        fst (ensure_warm f st) = Inr (encs, ids) \<and> encs \<noteq> [] \<and>
        store_loads (snd (ensure_warm f st)) = store_loads st)"
proof (intro conjI impI)
  assume "cache_nonempty st"
  then show "cache_nonempty (snd (recognize_faces_in_stream env img k st))"
    by (rule recognize_nonempty)
next
  assume h: "cache st (ficha_pk f) = None \<and> fst (load_known (students f) [] [] []) = []"
  then have miss: "cache st (ficha_pk f) = None"
    and empty: "List.map_filter usable_encoding (students f) = []"
    by (simp_all add: load_known_eq)
  note first = ensure_warm_miss_empty [OF miss empty]
  from first(2) miss have miss': "cache (snd (ensure_warm f st)) (ficha_pk f) = None" by simp
  note second = ensure_warm_miss_empty [OF miss' empty]
  show "fst (ensure_warm f st) = Inl NoActiveEncodings" by (rule first(1))
  show "cache (snd (ensure_warm f st)) = cache st" by (rule first(2))
  show "store_loads (snd (ensure_warm f st)) = Suc (store_loads st)" by (rule first(3))
  show "fst (ensure_warm f (snd (ensure_warm f st))) = Inl NoActiveEncodings" by (rule second(1))
  show "store_loads (snd (ensure_warm f (snd (ensure_warm f st)))) = Suc (Suc (store_loads st))"
    using second(3) first(3) by simp
next
  assume h: "cache_nonempty st \<and> cache st (ficha_pk f) = Some (encs, ids)"
  then show "fst (ensure_warm f st) = Inr (encs, ids)" by (simp add: ensure_warm_hit)
  from h show "encs \<noteq> []" by (auto simp add: cache_nonempty_def)
  from h show "store_loads (snd (ensure_warm f st)) = store_loads st"
    by (simp add: ensure_warm_hit)
qed

lemma usable_empty_ficha: "List.map_filter usable_encoding (students empty_ficha) = []"
  by (simp add: empty_ficha_def example_user_def List.map_filter_simps usable_encoding_def)

lemma empty_ficha_miss: "cache example_state (ficha_pk empty_ficha) = None"
  by (simp add: example_state_def)

theorem cache_holds_nonempty_lists_witness:
  "cache example_state (ficha_pk empty_ficha) = None
   \<and> fst (load_known (students empty_ficha) [] [] []) = []
   \<and> fst (ensure_warm empty_ficha example_state) = Inl NoActiveEncodings
   \<and> cache (snd (ensure_warm empty_ficha example_state)) = Map.empty
   \<and> store_loads (snd (ensure_warm empty_ficha (snd (ensure_warm empty_ficha example_state)))) = 2
   \<and> cache_nonempty (snd (ensure_warm example_ficha example_state))
   \<and> cache (snd (ensure_warm example_ficha example_state)) (ficha_pk example_ficha) =
       Some ([replicate 128 0, replicate 128 1], [7, 8])
   \<and> fst (ensure_warm example_ficha (snd (ensure_warm example_ficha example_state))) =
       Inr ([replicate 128 0, replicate 128 1], [7, 8])
   \<and> store_loads (snd (ensure_warm example_ficha (snd (ensure_warm example_ficha example_state)))) = 1"
proof -
  have h: "cache example_state (ficha_pk empty_ficha) = None \<and>
           fst (load_known (students empty_ficha) [] [] []) = []"
    using empty_ficha_miss usable_empty_ficha by (simp add: load_known_eq)
  note a = cache_holds_nonempty_lists [of _ _ _ _ empty_ficha, THEN conjunct2, THEN conjunct1,
      rule_format, OF h]
  have ne: "cache_nonempty example_state" by (simp add: cache_nonempty_def example_state_def)
  let ?st1 = "snd (ensure_warm example_ficha example_state)"
  have ne1: "cache_nonempty ?st1" using ne by (rule ensure_warm_nonempty)
  have c1: "cache ?st1 (ficha_pk example_ficha) = Some ([replicate 128 0, replicate 128 1], [7, 8])"
    using ensure_warm_miss_nonempty(2) [OF example_miss] usable_example by simp
  have s1: "store_loads ?st1 = 1"
    using ensure_warm_miss_nonempty(3) [OF example_miss] usable_example
    by (simp add: example_state_def)
  have h2: "cache_nonempty ?st1 \<and>
            cache ?st1 (ficha_pk example_ficha) = Some ([replicate 128 0, replicate 128 1], [7, 8])"
    using ne1 c1 by simp
  note b = cache_holds_nonempty_lists [of ?st1 _ _ _ example_ficha, THEN conjunct2, THEN conjunct2,
      rule_format, OF h2]
  from h a b ne1 c1 s1 show ?thesis by (simp add: example_state_def)
qed


section \<open>One detected face\<close>

lemma matched_indices_compare:
  "matched_indices_of (compare_faces d known enc tol) =
     filter (\<lambda>i. d (known ! i) enc \<le> tol) [0..<length known]"
  by (auto simp add: matched_indices_of_def compare_faces_def intro: filter_cong)

lemma length_matched_indices:
  "length (matched_indices_of (compare_faces d known enc tol)) =
     length (filter (\<lambda>k. d k enc \<le> tol) known)"
proof -
  have "filter (\<lambda>k. d k enc \<le> tol) known =
          filter (\<lambda>k. d k enc \<le> tol) (map (\<lambda>i. known ! i) [0..<length known])"
    by (simp add: map_nth)
  also have "\<dots> = map (\<lambda>i. known ! i) (filter (\<lambda>i. d (known ! i) enc \<le> tol) [0..<length known])"
    by (simp add: filter_map comp_def)
  finally show ?thesis by (simp add: matched_indices_compare)
qed

lemma matched_indices_bound:
  "j \<in> set (matched_indices_of (compare_faces d known enc tol)) \<Longrightarrow> j < length known"
  by (simp add: matched_indices_compare)

lemma log_logger [simp]: "log (logger e st) = log st @ [e]"
  by (simp add: logger_def)

text \<open>
  Claim C3. When the distance of a detected face is within the tolerance for two or more
  known encodings, lines 108 to 138 do not run for any student and the attendance records
  are all left as they were; with as many ids as encodings the iteration ends with the
  warning about the ambiguity and nothing else.
\<close>

theorem ambiguous_match_no_mutation:
  assumes two: "2 \<le> length (filter (\<lambda>k. face_distance env k stream_encoding \<le> confidence_threshold env)
                           known_encodings)"
  shows "attendances (snd (process_face env known_encodings known_student_ids session_id sess i n
                             stream_encoding st)) = attendances st
       \<and> (\<forall>r. fst (process_face env known_encodings known_student_ids session_id sess i n
                      stream_encoding st) \<noteq> Inr (Some r))
       \<and> (length known_student_ids = length known_encodings \<longrightarrow>
            process_face env known_encodings known_student_ids session_id sess i n stream_encoding st =
              (Inr None,
               logger (WarningAmbiguous (i + 1)
                         (map (\<lambda>j. known_student_ids ! j)
                            (matched_indices_of (compare_faces (face_distance env) known_encodings
                               stream_encoding (confidence_threshold env)))))
                 (logger (InfoProcessingFace (i + 1) n) st)))"
proof -
  let ?mi = "matched_indices_of (compare_faces (face_distance env) known_encodings
                stream_encoding (confidence_threshold env))"
  from two have len: "length ?mi > 1" "length ?mi \<noteq> 1"
    by (simp_all add: length_matched_indices)
  have a: "attendances (snd (process_face env known_encodings known_student_ids session_id sess i n
                             stream_encoding st)) = attendances st"
    using len by (simp add: process_face_def Let_def raise_unexpected_def)
  have b: "\<forall>r. fst (process_face env known_encodings known_student_ids session_id sess i n
                      stream_encoding st) \<noteq> Inr (Some r)"
    using len by (simp add: process_face_def Let_def raise_unexpected_def)
  have c: "length known_student_ids = length known_encodings \<longrightarrow>
            process_face env known_encodings known_student_ids session_id sess i n stream_encoding st =
              (Inr None,
               logger (WarningAmbiguous (i + 1) (map (\<lambda>j. known_student_ids ! j) ?mi))
                 (logger (InfoProcessingFace (i + 1) n) st))"
  proof
    assume eq: "length known_student_ids = length known_encodings"
    have "list_all (\<lambda>j. j < length known_student_ids) ?mi"
      using matched_indices_bound [of _ "face_distance env" known_encodings stream_encoding
          "confidence_threshold env"] eq
      by (simp add: list_all_iff)
    with len show "process_face env known_encodings known_student_ids session_id sess i n stream_encoding st =
              (Inr None,
               logger (WarningAmbiguous (i + 1) (map (\<lambda>j. known_student_ids ! j) ?mi))
                 (logger (InfoProcessingFace (i + 1) n) st))"
      by (simp add: process_face_def Let_def)
  qed
  from a b c show ?thesis by blast
qed

lemma first_component_replicate [simp]: "first_component (replicate 128 x) = x"
  by (simp add: first_component_def numeral_eq_Suc)

lemma example_env_simps [simp]:
  "face_distance (example_env tol) a b = \<bar>first_component a - first_component b\<bar>"
  "detect_faces (example_env tol) img = Some img"
  "now_at (example_env tol) i = 63863629800000000 + int i"
  "confidence_threshold (example_env tol) = tol"
  by (simp_all add: example_env_def)

theorem ambiguous_match_no_mutation_witness:
  "2 \<le> length (filter (\<lambda>k. face_distance (example_env 2) k (replicate 128 0)
                           \<le> confidence_threshold (example_env 2))
                 [replicate 128 0, replicate 128 1])
   \<and> process_face (example_env 2) [replicate 128 0, replicate 128 1] [7, 8] 1 example_session 0 1
        (replicate 128 0) example_state =
       (Inr None, example_state\<lparr>log := [InfoProcessingFace 1 1, WarningAmbiguous 1 [7, 8]]\<rparr>)"
proof -
  have two: "2 \<le> length (filter (\<lambda>k. face_distance (example_env 2) k (replicate 128 0)
                           \<le> confidence_threshold (example_env 2))
                 [replicate 128 0, replicate 128 1])"
    by simp
  have mi: "matched_indices_of (compare_faces (face_distance (example_env 2))
              [replicate 128 0, replicate 128 1] (replicate 128 0)
              (confidence_threshold (example_env 2))) = [0, 1]"
    by (simp add: matched_indices_compare)
  note inst = ambiguous_match_no_mutation [OF two, of "[7, 8]" 1 example_session 0 1 example_state,
      THEN conjunct2, THEN conjunct2, rule_format]
  from two inst mi show ?thesis
    by (simp add: logger_def example_state_def)
qed

lemma process_face_unique:
  assumes "matched_indices_of (compare_faces (face_distance env) known enc (confidence_threshold env)) = [m]"
    and "m < length ids" and "ids ! m \<noteq> 0"
  shows "process_face env known ids k sess i n enc st =
           (map_sum (\<lambda>e. e) Some
              (fst (apply_face_verification k sess (ids ! m) (now_at env i)
                      (logger (InfoUniqueMatch (ids ! m)) (logger (InfoProcessingFace (i + 1) n) st)))),
            snd (apply_face_verification k sess (ids ! m) (now_at env i)
                   (logger (InfoUniqueMatch (ids ! m)) (logger (InfoProcessingFace (i + 1) n) st))))"
  using assms by (simp add: process_face_def Let_def split: prod.splits sum.splits)

lemma process_face_no_match:
  assumes "matched_indices_of (compare_faces (face_distance env) known enc (confidence_threshold env)) = []"
    and "known \<noteq> []"
  shows "process_face env known ids k sess i n enc st =
           (Inr None, logger (WarningNoMatch (i + 1)) (logger (InfoProcessingFace (i + 1) n) st))"
  using assms by (simp add: process_face_def Let_def)

text \<open>
  Claim C7, as the code has it. A detected face that matches exactly one known student who
  has no attendance record for the session: the error is logged and that is all. No record
  is created (the state changes in its log only), nothing is added to the list the caller
  gets, and the loop goes on with the remaining faces.
\<close>

theorem record_missing_logged:
  assumes unique: "matched_indices_of (compare_faces (face_distance env) known_encodings stream_encoding
                      (confidence_threshold env)) = [m]"
    and inside: "m < length known_student_ids"
    and truthy: "known_student_ids ! m \<noteq> 0"
    and missing: "attendances st (session_id, known_student_ids ! m) = None"
  shows "process_face env known_encodings known_student_ids session_id sess i n stream_encoding st =
           (Inr (Some RecordMissing),
            st\<lparr>log := log st @ [InfoProcessingFace (i + 1) n,
                                 InfoUniqueMatch (known_student_ids ! m),
                                 ErrorRecordMissing (known_student_ids ! m)]\<rparr>)
       \<and> process_faces env known_encodings known_student_ids session_id sess i n
           (stream_encoding # rest) recognized_students st =
         process_faces env known_encodings known_student_ids session_id sess (Suc i) n
           rest recognized_students
           (st\<lparr>log := log st @ [InfoProcessingFace (i + 1) n,
                                InfoUniqueMatch (known_student_ids ! m),
                                ErrorRecordMissing (known_student_ids ! m)]\<rparr>)"
proof -
  have pf: "process_face env known_encodings known_student_ids session_id sess i n stream_encoding st =
           (Inr (Some RecordMissing),
            st\<lparr>log := log st @ [InfoProcessingFace (i + 1) n,
                                 InfoUniqueMatch (known_student_ids ! m),
                                 ErrorRecordMissing (known_student_ids ! m)]\<rparr>)"
    using missing
    by (simp add: process_face_unique [OF unique inside truthy] apply_face_verification_def logger_def)
  then show ?thesis by simp
qed

lemma example_known:
  "ensure_warm \<lparr>ficha_pk = 1, students = students example_ficha\<rparr> (logger InfoThreshold (logger (InfoStart 1) example_state)) =
     (Inr ([replicate 128 0, replicate 128 1], [7, 8]),
      example_state\<lparr>log := [InfoStart 1, InfoThreshold, InfoLoadingFromDB 1 4, WarningWrongLength 9 2, InfoCached 2],
                     store_loads := 1,
                     cache := [1 \<mapsto> ([replicate 128 0, replicate 128 1], [7, 8])]\<rparr>)"
proof -
  have "load_known (students example_ficha) [] [] [] =
          ([replicate 128 0, replicate 128 1], [7, 8], [WarningWrongLength 9 2])"
    by (simp add: load_known_eq usable_example)
       (simp add: example_ficha_def example_user_def List.map_filter_simps wrong_length_warning_def)
  then show ?thesis
    by (simp add: ensure_warm_def Let_def logger_def example_state_def)
       (simp add: example_ficha_def)
qed

lemma example_recognize:
  "recognize_faces_in_stream (example_env tol) (x # xs) 1 example_state =
     process_faces (example_env tol) [replicate 128 0, replicate 128 1] [7, 8] 1 example_session
       0 (Suc (length xs)) (x # xs) []
       (example_state\<lparr>log := [InfoStart 1, InfoThreshold, InfoLoadingFromDB 1 4, WarningWrongLength 9 2, InfoCached 2,
                               InfoDetected (Suc (length xs))],
                      store_loads := 1,
                      cache := [1 \<mapsto> ([replicate 128 0, replicate 128 1], [7, 8])],
                      detect_calls := 1\<rparr>)"
proof -
  have s: "sessions example_state 1 = Some example_session"
    "fichas example_state 1 = Some (students example_ficha)"
    "ficha example_session = Some 1"
    by (simp_all add: example_state_def example_session_def)
  show ?thesis
    unfolding recognize_faces_in_stream_def Let_def
    by (simp add: s example_known del: process_faces.simps)
       (simp add: logger_def example_state_def del: process_faces.simps)
qed

lemma example_indices:
  "matched_indices_of (compare_faces (face_distance (example_env (1/2)))
     [replicate 128 0, replicate 128 1] (replicate 128 0) (confidence_threshold (example_env (1/2)))) = [0]"
  "matched_indices_of (compare_faces (face_distance (example_env (1/2)))
     [replicate 128 0, replicate 128 1] (replicate 128 1) (confidence_threshold (example_env (1/2)))) = [1]"
  "matched_indices_of (compare_faces (face_distance (example_env (1/2)))
     [replicate 128 0, replicate 128 1] (replicate 128 5) (confidence_threshold (example_env (1/2)))) = []"
  by (simp_all add: matched_indices_compare)

theorem record_missing_logged_witness:
  "process_face (example_env (1/2)) [replicate 128 0, replicate 128 1] [7, 8] 1 example_session 0 1
     (replicate 128 1) example_state =
     (Inr (Some RecordMissing),
      example_state\<lparr>log := [InfoProcessingFace 1 1, InfoUniqueMatch 8, ErrorRecordMissing 8]\<rparr>)"
proof -
  have inside: "1 < length [7, 8 :: int]" by simp
  have truthy: "[7, 8 :: int] ! 1 \<noteq> 0" by simp
  have missing: "attendances example_state (1, [7, 8] ! 1) = None" by (simp add: example_state_def)
  from record_missing_logged [OF example_indices(2) inside truthy missing, of example_session 0 1,
      THEN conjunct1]
  show ?thesis by (simp add: example_state_def)
qed

text \<open>
  The returned value does not tell a recognized student without attendance record from a
  face that matches nobody: both calls return the empty list.
\<close>

theorem record_missing_not_surfaced:
  "attendances example_state (1, 8) = None
   \<and> matched_indices_of (compare_faces (face_distance (example_env (1/2)))
        [replicate 128 0, replicate 128 1] (replicate 128 1)
        (confidence_threshold (example_env (1/2)))) = [1]
   \<and> fst (recognize_faces_in_stream (example_env (1/2)) [replicate 128 1] 1 example_state) = Inr []
   \<and> fst (recognize_faces_in_stream (example_env (1/2)) [replicate 128 5] 1 example_state) = Inr []"
proof -
  have a: "attendances example_state (1, 8) = None" by (simp add: example_state_def)
  have b: "fst (recognize_faces_in_stream (example_env (1/2)) [replicate 128 1] 1 example_state) = Inr []"
    unfolding example_recognize
    by (subst process_faces_step)
       (simp add: process_face_unique [OF example_indices(2)] apply_face_verification_def
          example_state_def)
  have c: "fst (recognize_faces_in_stream (example_env (1/2)) [replicate 128 5] 1 example_state) = Inr []"
    unfolding example_recognize
    by (subst process_faces_step)
       (simp add: process_face_no_match [OF example_indices(3)])
  from a b c example_indices(2) show ?thesis by simp
qed

section \<open>The returned list\<close>

lemma apply_face_verification_effect:
  assumes "apply_face_verification k sess u now st = (Inr r, st1)"
  shows "case r of
           Transitioned e \<Rightarrow>
             entry_id e = u \<and> entry_full_name e = full_names st u \<and>
             (entry_status e = Present \<or> entry_status e = Late) \<and>
             map_option status (attendances st (k, u)) = Some Absent \<and>
             map_option status (attendances st1 (k, u)) = Some (entry_status e) \<and>
             (\<forall>key. key \<noteq> (k, u) \<longrightarrow> attendances st1 key = attendances st key)
         | _ \<Rightarrow> attendances st1 = attendances st"
proof (cases "attendances st (k, u)")
  case None
  with assms show ?thesis by (auto simp add: apply_face_verification_def)
next
  case (Some a)
  show ?thesis
  proof (cases "status a = Absent")
    case True
    show ?thesis
    proof (cases "grace_period_end sess")
      case None
      with Some True assms show ?thesis
        by (simp add: apply_face_verification_def Let_def raise_unexpected_def)
    next
      case (Some b)
      with \<open>attendances st (k, u) = Some a\<close> True assms show ?thesis
        by (auto simp add: apply_face_verification_def Let_def)
    qed
  next
    case False
    with Some assms show ?thesis by (auto simp add: apply_face_verification_def Let_def)
  qed
qed

lemma process_face_effect:
  assumes "process_face env known ids k sess i n enc st = (Inr r, st1)"
  shows "case r of
           Some (Transitioned e) \<Rightarrow>
             entry_full_name e = full_names st (entry_id e) \<and>
             (entry_status e = Present \<or> entry_status e = Late) \<and>
             map_option status (attendances st (k, entry_id e)) = Some Absent \<and>
             map_option status (attendances st1 (k, entry_id e)) = Some (entry_status e) \<and>
             (\<forall>key. key \<noteq> (k, entry_id e) \<longrightarrow> attendances st1 key = attendances st key)
         | _ \<Rightarrow> attendances st1 = attendances st"
proof -
  let ?st1 = "logger (InfoProcessingFace (i + 1) n) st"
  let ?mi = "matched_indices_of (compare_faces (face_distance env) known enc (confidence_threshold env))"
  show ?thesis
  proof (cases "length ?mi = 1 \<and> ?mi ! 0 < length ids \<and> ids ! (?mi ! 0) \<noteq> 0")
    case True
    let ?u = "ids ! (?mi ! 0)"
    let ?st2 = "logger (InfoUniqueMatch ?u) ?st1"
    from True assms
    have a: "apply_face_verification k sess ?u (now_at env i) ?st2 = (Inr (the r), st1)"
      and s: "r = Some (the r)"
      by (auto simp add: process_face_def Let_def split: prod.splits sum.splits)
    from apply_face_verification_effect [OF a] s show ?thesis
      by (cases "the r") (auto split: option.splits)
  next
    case False
    with assms have "r = None \<and> attendances st1 = attendances st"
      by (auto simp add: process_face_def Let_def raise_unexpected_def split: if_splits)
    then show ?thesis by simp
  qed
qed

lemma process_faces_entries:
  assumes "process_faces env known ids k sess i n encs acc st = (Inr out, st')"
  shows "\<exists>new. out = acc @ new \<and> length new \<le> length encs \<and> entries_are_transitions k st st' new"
  using assms
proof (induction encs arbitrary: i acc st)
  case Nil
  then show ?case by (simp add: entries_are_transitions_def)
next
  case (Cons enc rest)
  obtain r1 st1 where pf: "process_face env known ids k sess i n enc st = (r1, st1)"
    by (cases "process_face env known ids k sess i n enc st")
  from Cons.prems pf obtain r where r1: "r1 = Inr r"
    by (cases r1) (simp_all add: process_faces_step)
  have names: "full_names st1 = full_names st"
    using pf process_face_fixed(6) [of env known ids k sess i n enc st] by simp
  note eff = process_face_effect [OF pf [unfolded r1]]
  show ?case
  proof (cases "\<exists>e. r = Some (Transitioned e)")
    case False
    then have unchanged: "attendances st1 = attendances st"
      using eff by (auto split: option.splits outcome.splits)
    from False Cons.prems pf r1
    have "process_faces env known ids k sess (Suc i) n rest acc st1 = (Inr out, st')"
      by (auto simp add: process_faces_step split: option.splits outcome.splits)
    from Cons.IH [OF this] obtain new where new: "out = acc @ new" "length new \<le> length rest"
      "entries_are_transitions k st1 st' new" by blast
    from new(3) unchanged names have "entries_are_transitions k st st' new"
      by (simp add: entries_are_transitions_def)
    with new(1,2) show ?thesis by auto
  next
    case True
    then obtain e where e: "r = Some (Transitioned e)" by blast
    let ?key = "(k, entry_id e)"
    from eff e have e_name: "entry_full_name e = full_names st (entry_id e)"
      and e_status: "entry_status e = Present \<or> entry_status e = Late"
      and before: "map_option status (attendances st ?key) = Some Absent"
      and after: "map_option status (attendances st1 ?key) = Some (entry_status e)"
      and others: "\<And>key. key \<noteq> ?key \<Longrightarrow> attendances st1 key = attendances st key"
      by (simp_all del: split_paired_All)
    from e Cons.prems pf r1
    have "process_faces env known ids k sess (Suc i) n rest (acc @ [e]) st1 = (Inr out, st')"
      by (simp add: process_faces_step)
    from Cons.IH [OF this] obtain new where new: "out = (acc @ [e]) @ new" "length new \<le> length rest"
      "entries_are_transitions k st1 st' new" by blast
    from new(3) have dist: "distinct (map entry_id new)"
      and changed: "\<And>key. attendances st' key \<noteq> attendances st1 key \<longleftrightarrow>
                      key \<in> (\<lambda>e. (k, entry_id e)) ` set new"
      and each: "\<And>x. x \<in> set new \<Longrightarrow>
           map_option status (attendances st1 (k, entry_id x)) = Some Absent \<and>
           map_option status (attendances st' (k, entry_id x)) = Some (entry_status x) \<and>
           (entry_status x = Present \<or> entry_status x = Late) \<and>
           entry_full_name x = full_names st1 (entry_id x)"
      by (auto simp add: entries_are_transitions_def)
    have fresh: "entry_id e \<notin> entry_id ` set new"
    proof
      assume "entry_id e \<in> entry_id ` set new"
      then obtain x where x: "x \<in> set new" "entry_id x = entry_id e" by auto
      from each [OF x(1)] x(2) after e_status show False by auto
    qed
    then have key_fresh: "?key \<notin> (\<lambda>e. (k, entry_id e)) ` set new" by auto
    with changed have same: "attendances st' ?key = attendances st1 ?key" by blast
    have d: "distinct (map entry_id (e # new))" using dist fresh by simp
    have c: "\<forall>key. attendances st' key \<noteq> attendances st key \<longleftrightarrow>
               key \<in> (\<lambda>e. (k, entry_id e)) ` set (e # new)"
    proof
      fix key
      show "attendances st' key \<noteq> attendances st key \<longleftrightarrow>
               key \<in> (\<lambda>e. (k, entry_id e)) ` set (e # new)"
      proof (cases "key = ?key")
        case True
        have "attendances st' ?key \<noteq> attendances st ?key"
          using same before after e_status by auto
        with True show ?thesis by simp
      next
        case False
        with others [OF False] changed [of key] show ?thesis by auto
      qed
    qed
    have p: "\<forall>x \<in> set (e # new).
         map_option status (attendances st (k, entry_id x)) = Some Absent \<and>
         map_option status (attendances st' (k, entry_id x)) = Some (entry_status x) \<and>
         (entry_status x = Present \<or> entry_status x = Late) \<and>
         entry_full_name x = full_names st (entry_id x)"
    proof
      fix x
      assume "x \<in> set (e # new)"
      then consider "x = e" | "x \<in> set new" by auto
      then show "map_option status (attendances st (k, entry_id x)) = Some Absent \<and>
         map_option status (attendances st' (k, entry_id x)) = Some (entry_status x) \<and>
         (entry_status x = Present \<or> entry_status x = Late) \<and>
         entry_full_name x = full_names st (entry_id x)"
      proof cases
        case 1
        with before after same e_status e_name show ?thesis by simp
      next
        case 2
        with fresh have "(k, entry_id x) \<noteq> ?key" by (metis imageI prod.inject)
        from others [OF this] each [OF 2] names show ?thesis by simp
      qed
    qed
    from d c p have "entries_are_transitions k st st' (e # new)"
      unfolding entries_are_transitions_def by blast
    moreover have "out = acc @ (e # new)" using new(1) by simp
    moreover have "length (e # new) \<le> length (enc # rest)" using new(2) by simp
    ultimately show ?thesis by blast
  qed
qed

text \<open>
  Claim C5, as the code has it. The list the service returns holds one entry for each
  attendance record the call moved out of absent, and nothing else: the entries are for
  different students, the records that changed are exactly those of the entries, each was
  absent before and has the entry's status (present or late) after, and the entry carries
  the student's id and full name. There are at most as many entries as detected faces;
  a face that is ambiguous, matches nobody, or matches a student already recorded or
  without record adds no entry.
\<close>

theorem recognized_students_are_transitions:
  assumes "recognize_faces_in_stream env image_file session_id st = (Inr recognized_students, st')"
  shows "distinct (map entry_id recognized_students)
       \<and> (\<forall>key. attendances st' key \<noteq> attendances st key \<longleftrightarrow>
                  key \<in> (\<lambda>e. (session_id, entry_id e)) ` set recognized_students)
       \<and> (\<forall>e \<in> set recognized_students.
            map_option status (attendances st (session_id, entry_id e)) = Some Absent \<and>
            map_option status (attendances st' (session_id, entry_id e)) = Some (entry_status e) \<and>
            (entry_status e = Present \<or> entry_status e = Late) \<and>
            entry_full_name e = full_names st (entry_id e))
       \<and> (\<exists>stream_encodings. detect_faces env image_file = Some stream_encodings \<and>
              length recognized_students \<le> length stream_encodings)"
proof -
  let ?st0 = "logger InfoThreshold (logger (InfoStart session_id) st)"
  from assms obtain sess fid studs where h: "sessions st session_id = Some sess"
    "ficha sess = Some fid" "fichas st fid = Some studs"
    by (auto simp add: recognize_faces_in_stream_def Let_def split: option.splits)
  let ?f = "\<lparr>ficha_pk = fid, students = studs\<rparr>"
  obtain w st1 where ew: "ensure_warm ?f ?st0 = (w, st1)" by (cases "ensure_warm ?f ?st0")
  from assms h ew obtain known ids where w: "w = Inr (known, ids)"
    by (cases w) (auto simp add: recognize_faces_in_stream_def Let_def)
  from ew ensure_warm_fixed(1,5) [of ?f ?st0]
  have st1: "attendances st1 = attendances st" "full_names st1 = full_names st" by simp_all
  from assms h ew w obtain encs where encs: "detect_faces env image_file = Some encs"
    by (cases "detect_faces env image_file")
       (auto simp add: recognize_faces_in_stream_def Let_def raise_unexpected_def)
  let ?st3 = "logger (InfoDetected (length encs)) (st1\<lparr>detect_calls := Suc (detect_calls st1)\<rparr>)"
  have st3: "attendances ?st3 = attendances st" "full_names ?st3 = full_names st"
    using st1 by simp_all
  from assms h ew w encs
  have "process_faces env known ids session_id sess 0 (length encs) encs [] ?st3 =
          (Inr recognized_students, st')"
    by (cases "encs = []") (simp_all add: recognize_faces_in_stream_def Let_def)
  from process_faces_entries [OF this] obtain new where new: "recognized_students = new"
    "length new \<le> length encs" "entries_are_transitions session_id ?st3 st' new" by auto
  from new(3) st3 have "entries_are_transitions session_id st st' recognized_students"
    by (simp add: entries_are_transitions_def new(1))
  with new(1,2) encs show ?thesis
    unfolding entries_are_transitions_def by blast
qed

lemma example_two_faces:
  "fst (recognize_faces_in_stream (example_env (1/2)) [replicate 128 5, replicate 128 0] 1
          example_state) =
     Inr [\<lparr>entry_id = 7, entry_full_name = ''Ana'', entry_status = Late\<rparr>]"
  unfolding example_recognize
  apply (subst process_faces_step)
  apply (simp add: process_face_no_match [OF example_indices(3)] del: process_faces.simps)
  apply (subst process_faces_step)
  apply (simp add: process_face_unique [OF example_indices(1)] apply_face_verification_def
        example_state_def example_record_def example_grace_period_end Let_def)
  done

text \<open>
  A frame with two detected faces, the first matching nobody and the second student 7:
  the returned list has one entry, for student 7, and none for the first face.
\<close>

theorem entry_per_detection_counterexample:
  "detect_faces (example_env (1/2)) [replicate 128 5, replicate 128 0] =
     Some [replicate 128 5, replicate 128 0]
   \<and> [replicate 128 0, replicate 128 1] \<noteq> ([] :: encoding list)
   \<and> fst (recognize_faces_in_stream (example_env (1/2)) [replicate 128 5, replicate 128 0] 1
           example_state) =
       Inr [\<lparr>entry_id = 7, entry_full_name = ''Ana'', entry_status = Late\<rparr>]"
  using example_two_faces by simp

theorem recognized_students_are_transitions_witness:
  "recognize_faces_in_stream (example_env (1/2)) [replicate 128 5, replicate 128 0] 1 example_state =
     (Inr [\<lparr>entry_id = 7, entry_full_name = ''Ana'', entry_status = Late\<rparr>],
      snd (recognize_faces_in_stream (example_env (1/2)) [replicate 128 5, replicate 128 0] 1
             example_state))
   \<and> (\<forall>key. attendances (snd (recognize_faces_in_stream (example_env (1/2))
                   [replicate 128 5, replicate 128 0] 1 example_state)) key
                \<noteq> attendances example_state key \<longleftrightarrow> key = (1, 7))"
proof -
  let ?call = "recognize_faces_in_stream (example_env (1/2)) [replicate 128 5, replicate 128 0] 1
                 example_state"
  from example_two_faces
  have run: "?call = (Inr [\<lparr>entry_id = 7, entry_full_name = ''Ana'', entry_status = Late\<rparr>], snd ?call)"
    by (simp add: prod_eq_iff)
  from recognized_students_are_transitions [OF run, THEN conjunct2, THEN conjunct1] run
  show ?thesis by simp
qed

section \<open>A cache entry that is out of date\<close>

lemma usable_deactivated: "List.map_filter usable_encoding deactivated_students = []"
  by (simp add: deactivated_students_def example_user_def List.map_filter_simps usable_encoding_def)

lemma example_first_call:
  "snd (recognize_faces_in_stream (example_env (1/2)) [replicate 128 5] 1 example_state) =
     example_state\<lparr>log := [InfoStart 1, InfoThreshold, InfoLoadingFromDB 1 4, WarningWrongLength 9 2,
                            InfoCached 2, InfoDetected 1, InfoProcessingFace 1 1, WarningNoMatch 1],
                    store_loads := 1,
                    cache := [1 \<mapsto> ([replicate 128 0, replicate 128 1], [7, 8])],
                    detect_calls := 1\<rparr>"
  unfolding example_recognize
  by (subst process_faces_step)
     (simp add: process_face_no_match [OF example_indices(3)] logger_def example_state_def)

lemma stale_state_fields:
  "cache stale_state 1 = Some ([replicate 128 0, replicate 128 1], [7, 8])"
  "sessions stale_state 1 = Some example_session"
  "fichas stale_state 1 = Some deactivated_students"
  "attendances stale_state (1, 7) = Some example_record"
  "detect_calls stale_state = 1"
  "store_loads stale_state = 1"
  "full_names stale_state 7 = ''Ana''"
  unfolding stale_state_def example_first_call
  by (simp_all add: example_state_def)



lemma stale_call:
  "fst (recognize_faces_in_stream (example_env (1/2)) [replicate 128 0] 1 stale_state) =
     Inr [\<lparr>entry_id = 7, entry_full_name = ''Ana'', entry_status = Present\<rparr>]"
  "detect_calls (snd (recognize_faces_in_stream (example_env (1/2)) [replicate 128 0] 1 stale_state)) = 2"
proof -
  let ?f = "\<lparr>ficha_pk = 1, students = deactivated_students\<rparr>"
  let ?st0 = "logger InfoThreshold (logger (InfoStart 1) stale_state)"
  have hit: "cache ?st0 (ficha_pk ?f) = Some ([replicate 128 0, replicate 128 1], [7, 8])"
    by (simp add: stale_state_fields)
  have one: "ficha example_session = Some 1" by (simp add: example_session_def)
  have call: "recognize_faces_in_stream (example_env (1/2)) [replicate 128 0] 1 stale_state =
      process_faces (example_env (1/2)) [replicate 128 0, replicate 128 1] [7, 8] 1 example_session
        0 1 [replicate 128 0] []
        (logger (InfoDetected 1)
           ((logger (InfoCacheHit 1) ?st0)\<lparr>detect_calls := Suc (detect_calls (logger (InfoCacheHit 1) ?st0))\<rparr>))"
    unfolding recognize_faces_in_stream_def Let_def
    by (simp add: stale_state_fields one ensure_warm_hit [OF hit] del: process_faces.simps)
  show "fst (recognize_faces_in_stream (example_env (1/2)) [replicate 128 0] 1 stale_state) =
     Inr [\<lparr>entry_id = 7, entry_full_name = ''Ana'', entry_status = Present\<rparr>]"
    unfolding call
    by (subst process_faces_step)
       (simp add: process_face_unique [OF example_indices(1)] apply_face_verification_def
          stale_state_fields example_record_def example_grace_period_end Let_def)
  show "detect_calls (snd (recognize_faces_in_stream (example_env (1/2)) [replicate 128 0] 1
          stale_state)) = 2"
    unfolding call by (simp add: process_faces_fixed stale_state_fields del: process_faces.simps)
qed

text \<open>
  Claim C6, as the code has it. For a ficha that has no entry in the cache and none of
  whose students has a usable active encoding, the service returns the error for no active
  encodings and face detection does not run: the result and the state are the same whatever
  the image and the detection are. (An entry in the cache is served without a look at the
  students.)
\<close>

theorem empty_roster_short_circuits:
  assumes sess: "sessions st session_id = Some sess"
    and fid: "ficha sess = Some fid"
    and studs: "fichas st fid = Some studs"
    and miss: "cache st fid = None"
    and empty: "List.map_filter usable_encoding studs = []"
  shows "fst (recognize_faces_in_stream env image_file session_id st) = Inl NoActiveEncodings
       \<and> detect_calls (snd (recognize_faces_in_stream env image_file session_id st)) = detect_calls st
       \<and> attendances (snd (recognize_faces_in_stream env image_file session_id st)) = attendances st
       \<and> recognize_faces_in_stream env image_file session_id st =
           recognize_faces_in_stream env' image_file' session_id st"
proof -
  let ?st0 = "logger InfoThreshold (logger (InfoStart session_id) st)"
  define f where "f = \<lparr>ficha_pk = fid, students = studs\<rparr>"
  have empty: "List.map_filter usable_encoding (students f) = []" using empty by (simp add: f_def)
  have miss: "cache ?st0 (ficha_pk f) = None" using miss by (simp add: f_def)
  note e = ensure_warm_miss_empty [OF miss empty]
  obtain r st1 where ew: "ensure_warm f ?st0 = (r, st1)" by (cases "ensure_warm f ?st0")
  with e have r: "r = Inl NoActiveEncodings" and d: "detect_calls st1 = detect_calls st"
    and a: "attendances st1 = attendances st" by simp_all
  have "recognize_faces_in_stream env image_file session_id st = (Inl NoActiveEncodings, st1)"
    using sess fid studs ew r by (simp add: recognize_faces_in_stream_def f_def)
  moreover
  have "recognize_faces_in_stream env' image_file' session_id st = (Inl NoActiveEncodings, st1)"
    using sess fid studs ew r by (simp add: recognize_faces_in_stream_def f_def)
  ultimately show ?thesis using d a by simp
qed

theorem empty_roster_short_circuits_witness:
  "fst (recognize_faces_in_stream (example_env (1/2)) [replicate 128 0] 2 example_state)
     = Inl NoActiveEncodings
   \<and> detect_calls (snd (recognize_faces_in_stream (example_env (1/2)) [replicate 128 0] 2 example_state)) = 0"
proof -
  have s: "sessions example_state 2 = Some empty_session" by (simp add: example_state_def)
  have f: "ficha empty_session = Some 2"
    by (simp add: empty_session_def)
  have r: "fichas example_state 2 = Some (students empty_ficha)"
    by (simp add: example_state_def)
  have m: "cache example_state 2 = None" by (simp add: example_state_def)
  note inst = empty_roster_short_circuits [OF s f r m usable_empty_ficha,
      of "example_env (1/2)" "[replicate 128 0]" "example_env (1/2)" "[replicate 128 0]"]
  from inst [THEN conjunct1] inst [THEN conjunct2, THEN conjunct1]
  show ?thesis by (simp add: example_state_def)
qed

text \<open>
  The ficha of session 1 after a call had cached its known encodings and the encodings of
  its students were then deactivated: no student has a usable active encoding, and still
  the next call runs face detection on the image and marks student 7 present.
\<close>

theorem stale_entry_runs_detection:
  "sessions stale_state 1 = Some example_session
   \<and> ficha example_session = Some 1
   \<and> fichas stale_state 1 = Some deactivated_students
   \<and> List.map_filter usable_encoding deactivated_students = []
   \<and> fst (recognize_faces_in_stream (example_env (1/2)) [replicate 128 0] 1 stale_state) =
       Inr [\<lparr>entry_id = 7, entry_full_name = ''Ana'', entry_status = Present\<rparr>]
   \<and> detect_calls (snd (recognize_faces_in_stream (example_env (1/2)) [replicate 128 0] 1
        stale_state)) = Suc (detect_calls stale_state)"
  using stale_call usable_deactivated
  by (simp add: stale_state_fields example_session_def)





section \<open>Callers at the same time\<close>

lemma caller_step_cases:
  "caller_step f AtCacheGet st =
     (case cache st (ficha_pk f) of
        Some d \<Rightarrow> (Finished (Inr d), logger (InfoCacheHit (ficha_pk f)) st)
      | None \<Rightarrow> (AtLoad, st))"
  "caller_step f (AtCacheSet d) st =
     (Finished (Inr d),
      logger (InfoCached (length (fst d))) (st\<lparr>cache := (cache st)(ficha_pk f \<mapsto> d)\<rparr>))"
  "caller_step f (Finished r) st = (Finished r, st)"
  by (simp_all add: caller_step_def)

lemma caller_step_load:
  "caller_step f AtLoad st = (p', st') \<Longrightarrow>
     cache st' = cache st \<and> store_loads st' = Suc (store_loads st) \<and>
     (case expected_outcome f of
        Inl e \<Rightarrow> p' = Finished (Inl e)
      | Inr d \<Rightarrow> p' = AtCacheSet d)"
  by (auto simp add: caller_step_def expected_outcome_def Let_def split: prod.splits if_splits)

lemma caller_step_progress:
  "caller_step f p st = (p', st') \<Longrightarrow> min 3 (Suc (progress p)) \<le> progress p'"
  by (cases p)
     (auto simp add: caller_step_def Let_def split: option.splits prod.splits if_splits)

lemma length_filter_update:
  "i < length xs \<Longrightarrow>
   length (filter P (xs[i := y])) + (if P (xs ! i) then 1 else 0) =
   length (filter P xs) + (if P y then 1 else 0)"
proof (induction xs arbitrary: i)
  case Nil
  then show ?case by simp
next
  case (Cons x xs)
  then show ?case by (cases i) auto
qed

lemma cohort_invariant_step:
  assumes inv: "cohort_invariant f l0 cs st" and i: "i < length cs"
    and step: "caller_step f (snd (cs ! i)) st = (p', st')"
  shows "cohort_invariant f l0 (cs[i := (f, p')]) st'"
proof -
  let ?P = "\<lambda>c. progress (snd c) < 2"
  define Q where "Q = (\<lambda>p. case p of AtCacheSet d \<Rightarrow> expected_outcome f = Inr d
                              | Finished r \<Rightarrow> r = expected_outcome f | _ \<Rightarrow> True)"
  define p where "p = snd (cs ! i)"
  from inv have each: "\<forall>c \<in> set cs. fst c = f \<and> Q (snd c)"
    and entry: "\<forall>d. cache st (ficha_pk f) = Some d \<longrightarrow> expected_outcome f = Inr d"
    and mono: "l0 \<le> store_loads st"
    and count: "store_loads st + length (filter ?P cs) \<le> l0 + length cs"
    and loaded: "cache st (ficha_pk f) \<noteq> None \<or> (\<exists>c \<in> set cs. 2 \<le> progress (snd c)) \<longrightarrow>
                   l0 < store_loads st"
    unfolding cohort_invariant_def Q_def by blast+
  from i have mem: "cs ! i \<in> set cs" by simp
  with each have Qp: "Q p" by (simp add: p_def)
  from loaded mem have lp: "2 \<le> progress p \<longrightarrow> l0 < store_loads st"
    unfolding p_def by blast
  from step have step': "caller_step f p st = (p', st')" by (simp add: p_def)
  have a: "Q p'"
  proof (cases p)
    case AtCacheGet
    with step' entry show ?thesis
      by (auto simp add: caller_step_cases Q_def split: option.splits)
  next
    case AtLoad
    with step' caller_step_load [of f st p' st'] show ?thesis
      by (auto simp add: Q_def split: sum.splits)
  next
    case (AtCacheSet d)
    with step' Qp show ?thesis by (auto simp add: caller_step_cases Q_def)
  next
    case (Finished r)
    with step' Qp show ?thesis by (auto simp add: caller_step_cases Q_def)
  qed
  have b: "\<forall>d. cache st' (ficha_pk f) = Some d \<longrightarrow> expected_outcome f = Inr d"
  proof (cases p)
    case AtCacheGet
    with step' entry show ?thesis by (auto simp add: caller_step_cases split: option.splits)
  next
    case AtLoad
    with step' caller_step_load [of f st p' st'] entry show ?thesis by simp
  next
    case (AtCacheSet d)
    with step' Qp show ?thesis by (auto simp add: caller_step_cases Q_def)
  next
    case (Finished r)
    with step' entry show ?thesis by (auto simp add: caller_step_cases)
  qed
  have c: "store_loads st' + (if progress p' < 2 then 1 else 0) \<le>
           store_loads st + (if progress p < 2 then 1 else 0)"
  proof (cases p)
    case AtCacheGet
    with step' show ?thesis by (auto simp add: caller_step_cases split: option.splits)
  next
    case AtLoad
    with step' caller_step_load [of f st p' st'] show ?thesis by (auto split: sum.splits)
  next
    case (AtCacheSet d)
    with step' show ?thesis by (auto simp add: caller_step_cases)
  next
    case (Finished r)
    with step' show ?thesis by (auto simp add: caller_step_cases)
  qed
  have d: "store_loads st \<le> store_loads st'"
  proof (cases p)
    case AtCacheGet
    with step' show ?thesis by (auto simp add: caller_step_cases split: option.splits)
  next
    case AtLoad
    with step' caller_step_load [of f st p' st'] show ?thesis by simp
  next
    case (AtCacheSet d)
    with step' show ?thesis by (auto simp add: caller_step_cases)
  next
    case (Finished r)
    with step' show ?thesis by (auto simp add: caller_step_cases)
  qed
  have e: "cache st' (ficha_pk f) \<noteq> None \<or> 2 \<le> progress p' \<longrightarrow> l0 < store_loads st'"
  proof (cases p)
    case AtCacheGet
    with step' loaded show ?thesis by (auto simp add: caller_step_cases split: option.splits)
  next
    case AtLoad
    with step' caller_step_load [of f st p' st'] mono show ?thesis by simp
  next
    case (AtCacheSet d)
    with step' lp show ?thesis by (auto simp add: caller_step_cases)
  next
    case (Finished r)
    with step' lp show ?thesis by (auto simp add: caller_step_cases)
  qed
  have sub: "set (cs[i := (f, p')]) \<subseteq> insert (f, p') (set cs)" by (rule set_update_subset_insert)
  have 1: "\<forall>c \<in> set (cs[i := (f, p')]). fst c = f \<and> Q (snd c)"
  proof
    fix c assume "c \<in> set (cs[i := (f, p')])"
    with sub have "c = (f, p') \<or> c \<in> set cs" by blast
    with a each show "fst c = f \<and> Q (snd c)" by (metis fst_conv snd_conv)
  qed
  from length_filter_update [OF i, of ?P "(f, p')"] c count
  have 3: "store_loads st' + length (filter ?P (cs[i := (f, p')])) \<le> l0 + length (cs[i := (f, p')])"
    by (simp add: p_def split: if_splits)
  have 4: "cache st' (ficha_pk f) \<noteq> None \<or> (\<exists>c \<in> set (cs[i := (f, p')]). 2 \<le> progress (snd c)) \<longrightarrow>
             l0 < store_loads st'"
  proof
    assume "cache st' (ficha_pk f) \<noteq> None \<or> (\<exists>c \<in> set (cs[i := (f, p')]). 2 \<le> progress (snd c))"
    then consider "cache st' (ficha_pk f) \<noteq> None \<or> 2 \<le> progress p'"
      | "\<exists>c \<in> set cs. 2 \<le> progress (snd c)"
      using sub by (metis insertE snd_conv subsetD)
    then show "l0 < store_loads st'"
    proof cases
      case 1
      with e show ?thesis by blast
    next
      case 2
      with loaded d show ?thesis by (metis less_le_trans)
    qed
  qed
  from mono d have 2: "l0 \<le> store_loads st'" by simp
  from 1 b 2 3 4 show ?thesis
    unfolding cohort_invariant_def Q_def by blast
qed

lemma cohort_invariant_run:
  "cohort_invariant f l0 cs st \<Longrightarrow>
   cohort_invariant f l0 (fst (run sched cs st)) (snd (run sched cs st))"
proof (induction sched arbitrary: cs st)
  case Nil
  then show ?case by simp
next
  case (Cons i sched)
  show ?case
  proof (cases "i < length cs")
    case False
    with Cons show ?thesis by simp
  next
    case True
    obtain p' st' where step: "caller_step (fst (cs ! i)) (snd (cs ! i)) st = (p', st')"
      by (cases "caller_step (fst (cs ! i)) (snd (cs ! i)) st")
    from Cons.prems True have f: "fst (cs ! i) = f"
      unfolding cohort_invariant_def by (meson nth_mem)
    from cohort_invariant_step [OF Cons.prems True step [unfolded f]]
    have "cohort_invariant f l0 (cs[i := (f, p')]) st'" .
    from Cons.IH [OF this] True step f show ?thesis by simp
  qed
qed

lemma length_run [simp]: "length (fst (run sched cs st)) = length cs"
  by (induction sched arbitrary: cs st) (simp_all add: split_beta)

lemma progress_run:
  "i < length cs \<Longrightarrow>
   min 3 (progress (snd (cs ! i)) + count_list sched i) \<le> progress (snd (fst (run sched cs st) ! i))"
proof (induction sched arbitrary: cs st)
  case Nil
  then show ?case by simp
next
  case (Cons j sched)
  show ?case
  proof (cases "j < length cs")
    case False
    with Cons.prems have "j \<noteq> i" by auto
    with False Cons.IH [OF Cons.prems, of st] show ?thesis by simp
  next
    case True
    obtain p' st' where step: "caller_step (fst (cs ! j)) (snd (cs ! j)) st = (p', st')"
      by (cases "caller_step (fst (cs ! j)) (snd (cs ! j)) st")
    let ?cs = "cs[j := (fst (cs ! j), p')]"
    from Cons.prems have i': "i < length ?cs" by simp
    note ih = Cons.IH [OF i', of st']
    have run: "run (j # sched) cs st = run sched ?cs st'" using True step by simp
    show ?thesis
    proof (cases "j = i")
      case True
      with caller_step_progress [OF step] Cons.prems ih show ?thesis
        unfolding run by simp
    next
      case False
      with Cons.prems ih show ?thesis unfolding run by simp
    qed
  qed
qed


text \<open>One caller alone, taking its three steps, is lines 46 to 73 as one block.\<close>

lemma run_alone:
  "run [0, 0, 0] [(f, AtCacheGet)] st =
     ([(f, Finished (fst (ensure_warm f st)))], snd (ensure_warm f st))"
proof (cases "cache st (ficha_pk f)")
  case (Some d)
  then show ?thesis by (simp add: caller_step_cases ensure_warm_hit)
next
  case None
  obtain encs ids ws where l: "load_known (students f) [] [] [] = (encs, ids, ws)"
    by (cases "load_known (students f) [] [] []") auto
  show ?thesis
    using None l
    by (cases "encs = []")
       (simp_all add: caller_step_cases caller_step_def ensure_warm_def Let_def logger_def)
qed

lemma cohort_invariant_initial:
  "cache st (ficha_pk f) = None \<Longrightarrow>
   cohort_invariant f (store_loads st) (replicate n (f, AtCacheGet)) st"
  by (simp add: cohort_invariant_def)

text \<open>
  Claim C8, as the code has it. Callers of one ficha whose cache entry is missing, run in
  any order of their steps: there are at most as many loads from the database as callers
  (nothing makes it one), a caller that has finished has seen the one outcome a load of the
  ficha gives and at least one load has happened, and no caller waits for another: whatever
  the other callers do, of the same ficha or not, a caller has finished after three steps
  of its own.
\<close>

theorem concurrent_callers_reload:
  assumes miss: "cache st (ficha_pk f) = None"
  shows "store_loads (snd (run sched (replicate n (f, AtCacheGet)) st)) \<le> store_loads st + n
       \<and> (\<forall>i < n. \<forall>r. snd (fst (run sched (replicate n (f, AtCacheGet)) st) ! i) = Finished r \<longrightarrow>
              r = expected_outcome f \<and>
              store_loads st < store_loads (snd (run sched (replicate n (f, AtCacheGet)) st)))
       \<and> (\<forall>i < length cs.
              min 3 (progress (snd (cs ! i)) + count_list sched' i) \<le>
                progress (snd (fst (run sched' cs st') ! i)))"
proof -
  let ?cs = "fst (run sched (replicate n (f, AtCacheGet)) st)"
  let ?st = "snd (run sched (replicate n (f, AtCacheGet)) st)"
  from cohort_invariant_run [OF cohort_invariant_initial [OF miss]]
  have inv: "cohort_invariant f (store_loads st) ?cs ?st" .
  have len: "length ?cs = n" by simp
  from inv len have 1: "store_loads ?st \<le> store_loads st + n"
    unfolding cohort_invariant_def by linarith
  have 2: "\<forall>i < n. \<forall>r. snd (?cs ! i) = Finished r \<longrightarrow>
              r = expected_outcome f \<and> store_loads st < store_loads ?st"
  proof (intro allI impI)
    fix i r assume i: "i < n" and fin: "snd (?cs ! i) = Finished r"
    from i len have mem: "?cs ! i \<in> set ?cs" by simp
    with inv have "case snd (?cs ! i) of AtCacheSet d \<Rightarrow> expected_outcome f = Inr d
           | Finished r \<Rightarrow> r = expected_outcome f | _ \<Rightarrow> True"
      unfolding cohort_invariant_def by blast
    with fin have r: "r = expected_outcome f" by simp
    from fin have "2 \<le> progress (snd (?cs ! i))" by simp
    with mem inv have "store_loads st < store_loads ?st"
      unfolding cohort_invariant_def by blast
    with r show "r = expected_outcome f \<and> store_loads st < store_loads ?st" by simp
  qed
  have 3: "\<forall>i < length cs.
              min 3 (progress (snd (cs ! i)) + count_list sched' i) \<le>
                progress (snd (fst (run sched' cs st') ! i))"
    using progress_run by blast
  from 1 2 3 show ?thesis by blast
qed

lemma example_expected:
  "expected_outcome example_ficha = Inr ([replicate 128 0, replicate 128 1], [7, 8])"
  by (simp add: expected_outcome_def load_known_eq usable_example)

lemma example_load:
  "load_known (students example_ficha) [] [] [] =
     ([replicate 128 0, replicate 128 1], [7, 8], [WarningWrongLength 9 2])"
  by (simp add: load_known_eq usable_example)
     (simp add: example_ficha_def example_user_def List.map_filter_simps wrong_length_warning_def)

lemma example_interleaved:
  "run [0, 1, 0, 1, 0, 1] [(example_ficha, AtCacheGet), (example_ficha, AtCacheGet)] example_state =
     ([(example_ficha, Finished (Inr ([replicate 128 0, replicate 128 1], [7, 8]))),
       (example_ficha, Finished (Inr ([replicate 128 0, replicate 128 1], [7, 8])))],
      example_state\<lparr>cache := [1 \<mapsto> ([replicate 128 0, replicate 128 1], [7, 8])],
                     log := [InfoLoadingFromDB 1 4, WarningWrongLength 9 2,
                             InfoLoadingFromDB 1 4, WarningWrongLength 9 2,
                             InfoCached 2, InfoCached 2],
                     store_loads := 2\<rparr>)"
proof -
  have k: "ficha_pk example_ficha = 1" "length (students example_ficha) = 4"
    by (simp_all add: example_ficha_def)
  show ?thesis
    by (simp add: caller_step_def example_load Let_def logger_def k example_state_def)
qed

lemma example_in_turn:
  "run [0, 0, 0, 1, 1, 1] [(example_ficha, AtCacheGet), (example_ficha, AtCacheGet)] example_state =
     ([(example_ficha, Finished (Inr ([replicate 128 0, replicate 128 1], [7, 8]))),
       (example_ficha, Finished (Inr ([replicate 128 0, replicate 128 1], [7, 8])))],
      example_state\<lparr>cache := [1 \<mapsto> ([replicate 128 0, replicate 128 1], [7, 8])],
                     log := [InfoLoadingFromDB 1 4, WarningWrongLength 9 2,
                             InfoCached 2, InfoCacheHit 1],
                     store_loads := 1\<rparr>)"
proof -
  have k: "ficha_pk example_ficha = 1" "length (students example_ficha) = 4"
    by (simp_all add: example_ficha_def)
  show ?thesis
    by (simp add: caller_step_def example_load Let_def logger_def k example_state_def)
qed

text \<open>
  Two callers of the same ficha, its entry missing: when their steps alternate both read
  the cache before either writes it, and both load; one after the other, only the first
  loads.
\<close>

theorem single_flight_counterexample:
  "cache example_state (ficha_pk example_ficha) = None
   \<and> store_loads example_state = 0
   \<and> store_loads (snd (run [0, 1, 0, 1, 0, 1]
         [(example_ficha, AtCacheGet), (example_ficha, AtCacheGet)] example_state)) = 2
   \<and> store_loads (snd (run [0, 0, 0, 1, 1, 1]
         [(example_ficha, AtCacheGet), (example_ficha, AtCacheGet)] example_state)) = 1"
  using example_interleaved example_in_turn example_miss by (simp add: example_state_def)

theorem concurrent_callers_reload_witness:
  "cache example_state (ficha_pk example_ficha) = None
   \<and> store_loads (snd (run [0, 1, 0, 1, 0, 1] (replicate 2 (example_ficha, AtCacheGet)) example_state))
       \<le> store_loads example_state + 2
   \<and> map snd (fst (run [0, 1, 0, 1, 0, 1] (replicate 2 (example_ficha, AtCacheGet)) example_state)) =
       [Finished (expected_outcome example_ficha), Finished (expected_outcome example_ficha)]"
proof -
  have r: "replicate 2 (example_ficha, AtCacheGet) =
             [(example_ficha, AtCacheGet), (example_ficha, AtCacheGet)]"
    by (simp add: numeral_2_eq_2)
  from concurrent_callers_reload [OF example_miss, of "[0, 1, 0, 1, 0, 1]" 2, THEN conjunct1]
  show ?thesis
    using example_miss unfolding r example_interleaved
    by (simp add: example_expected del: run.simps)
qed

end
